theory Spec2Isabelle
  imports Complex_Main "HOL-Library.Sublist"
begin

section \<open>The Driplo database schema: functions, triggers, constraints and row-level policies\<close>

text \<open>
  The program is the SQL of \<^verbatim>\<open>SUPABASE_COMPLETE_STRUCTURE_FINAL.md\<close>: table declarations
  with their constraints (section 3), PL/pgSQL functions (section 4.1), triggers (section 4.2)
  and row-level security policies (section 5.2). Each SQL function is a HOL function of the
  same name; a table is the list of its rows; a statement that can raise (a violated
  constraint, \<^verbatim>\<open>RAISE EXCEPTION\<close>) returns a value of a sum type. What SQL reads from its
  environment (\<^verbatim>\<open>NOW()\<close>, \<^verbatim>\<open>RANDOM()\<close>, \<^verbatim>\<open>auth.uid()\<close>, a generated UUID) is an
  argument of the model.
\<close>

type_synonym uuid = nat
type_synonym timestamptz = int

subsection \<open>Scalar functions of section 4.1\<close>

text \<open>
  \<^verbatim>\<open>NUMERIC\<close> is exact decimal arithmetic; its finite values are rationals. \<^verbatim>\<open>ROUND(x, s)\<close>
  on \<^verbatim>\<open>NUMERIC\<close> rounds to \<open>s\<close> decimal places, ties away from zero.
\<close>

definition round_numeric :: "rat \<Rightarrow> nat \<Rightarrow> rat" where
  "round_numeric x s =
     (if x < 0 then - (of_int \<lfloor>- x * 10 ^ s + 1 / 2\<rfloor> / 10 ^ s)
      else of_int \<lfloor>x * 10 ^ s + 1 / 2\<rfloor> / 10 ^ s)"

text \<open>
  \<^verbatim>\<open>
  CREATE OR REPLACE FUNCTION calculate_platform_fee(amount NUMERIC)
  RETURNS NUMERIC AS $$
  BEGIN
      -- 5% platform fee
      RETURN ROUND(amount * 0.05, 2);
  END;
  \<close>
\<close>

definition calculate_platform_fee :: "rat \<Rightarrow> rat" where
  "calculate_platform_fee amount = round_numeric (amount * (5 / 100)) 2"

text \<open>
  Text of a non-negative integer (the cast \<^verbatim>\<open>::TEXT\<close> of a whole number), \<^verbatim>\<open>LPAD\<close>, and the
  \<^verbatim>\<open>TO_CHAR\<close> template \<^verbatim>\<open>YYYYMMDD\<close>: the year in at least four digits, the month and the day
  of the month in two.
\<close>

definition digit_char :: "nat \<Rightarrow> char" where
  "digit_char n = char_of (48 + n)"

fun nat_to_text :: "nat \<Rightarrow> string" where
  "nat_to_text n = (if n < 10 then [digit_char n] else nat_to_text (n div 10) @ [digit_char (n mod 10)])"

declare nat_to_text.simps [simp del]

definition lpad :: "string \<Rightarrow> nat \<Rightarrow> string \<Rightarrow> string" where
  \<comment> \<open>\<^verbatim>\<open>LPAD(s, len, fill)\<close>: a longer \<open>s\<close> is cut to its first \<open>len\<close> characters.\<close>
  "lpad s len fill =
     (if len \<le> length s then take len s
      else take (len - length s) (concat (replicate (len - length s) fill)) @ s)"

definition zero_pad :: "nat \<Rightarrow> string \<Rightarrow> string" where
  \<comment> \<open>a numeric template field: zeros on the left up to the width, never cut\<close>
  "zero_pad w s = replicate (w - length s) (CHR ''0'') @ s"

record date =
  year :: nat
  month :: nat
  day :: nat

definition to_char_YYYYMMDD :: "date \<Rightarrow> string" where
  "to_char_YYYYMMDD d =
     zero_pad 4 (nat_to_text (year d)) @ zero_pad 2 (nat_to_text (month d)) @ zero_pad 2 (nat_to_text (day d))"

text \<open>
  \<^verbatim>\<open>
  CREATE OR REPLACE FUNCTION generate_order_number()
  RETURNS VARCHAR AS $$
  BEGIN
      RETURN 'ORD-' || TO_CHAR(NOW(), 'YYYYMMDD') || '-' ||
             LPAD(FLOOR(RANDOM() * 10000)::TEXT, 4, '0');
  END;
  \<close>
  The arguments are the date of \<^verbatim>\<open>NOW()\<close> and the whole number \<^verbatim>\<open>FLOOR(RANDOM() * 10000)\<close>;
  \<^verbatim>\<open>RANDOM()\<close> is at least 0 and less than 1, so that number is below 10000.
\<close>

definition generate_order_number :: "date \<Rightarrow> nat \<Rightarrow> string" where
  "generate_order_number now rnd =
     ''ORD-'' @ to_char_YYYYMMDD now @ ''-'' @ lpad (nat_to_text rnd) 4 ''0''"

definition is_digit :: "char \<Rightarrow> bool" where
  "is_digit c = (c \<in> set ''0123456789'')"

fun digits_value :: "string \<Rightarrow> nat" where
  \<comment> \<open>the number a string of decimal digits writes, read from the left\<close>
  "digits_value [] = 0"
| "digits_value (c # cs) = (of_char c - 48) * 10 ^ length cs + digits_value cs"

definition valid_date :: "date \<Rightarrow> bool" where
  \<comment> \<open>a calendar date whose year has at most four digits\<close>
  "valid_date d = (year d \<le> 9999 \<and> 1 \<le> month d \<and> month d \<le> 12 \<and> 1 \<le> day d \<and> day d \<le> 31)"

text \<open>
  \<^verbatim>\<open>s LIKE pattern\<close>: in the pattern \<^verbatim>\<open>%\<close> stands for any run of characters (also none) and
  \<^verbatim>\<open>_\<close> for exactly one character, whatever it is; every other character stands for itself.
  (No pattern of the schema uses the escape character.) The pattern is the first argument.
\<close>

fun like :: "string \<Rightarrow> string \<Rightarrow> bool" where
  "like [] [] = True"
| "like [] (c # s) = False"
| "like (p # ps) [] = (p = CHR ''%'' \<and> like ps [])"
| "like (p # ps) (c # s) =
     (if p = CHR ''%'' then like ps (c # s) \<or> like (p # ps) s
      else (p = CHR ''_'' \<or> p = c) \<and> like ps s)"

text \<open>
  \<^verbatim>\<open>REPLACE(s, from, to)\<close> replaces every occurrence of \<open>from\<close> in \<open>s\<close>, found from the left
  and not overlapping; an empty \<open>from\<close> leaves \<open>s\<close> as it is.
\<close>

function replace :: "string \<Rightarrow> string \<Rightarrow> string \<Rightarrow> string" where
  "replace [] from to = []"
| "replace (c # s) from to =
     (if from \<noteq> [] \<and> take (length from) (c # s) = from
      then to @ replace (drop (length from) (c # s)) from to
      else c # replace s from to)"
  by pat_completeness auto
termination
  by (relation "measure (\<lambda>(s, from, to). length s)") (auto simp: Suc_le_eq diff_less_Suc)

declare replace.simps(2) [simp del]

text \<open>
  \<^verbatim>\<open>
  CREATE OR REPLACE FUNCTION get_optimized_image_url(
      base_url text,
      size text DEFAULT 'medium'
  ) RETURNS text AS $$
  BEGIN
      -- If already a WebP with size suffix, return as is
      IF base_url LIKE '%_thumb.webp' OR
         base_url LIKE '%_small.webp' OR
         base_url LIKE '%_medium.webp' OR
         base_url LIKE '%_large.webp' THEN
          RETURN base_url;
      END IF;

      -- If WebP without size suffix, add the size
      IF base_url LIKE '%.webp' THEN
          RETURN REPLACE(base_url, '.webp', '_' || size || '.webp');
      END IF;

      -- Return original URL if not WebP
      RETURN base_url;
  END;
  \<close>
\<close>

definition get_optimized_image_url :: "string \<Rightarrow> string \<Rightarrow> string" where
  \<comment> \<open>the parameter \<^verbatim>\<open>size\<close> is \<open>size_arg\<close> here: \<open>size\<close> is a constant of HOL\<close>
  "get_optimized_image_url base_url size_arg =
     (if like ''%_thumb.webp'' base_url \<or> like ''%_small.webp'' base_url
         \<or> like ''%_medium.webp'' base_url \<or> like ''%_large.webp'' base_url
      then base_url
      else if like ''%.webp'' base_url
      then replace base_url ''.webp'' (''_'' @ size_arg @ ''.webp'')
      else base_url)"

subsection \<open>Tables of section 3\<close>

text \<open>
  A row is a record of the columns that the functions, triggers, constraints and policies
  modelled here read or write; the other columns of a table take their defaults and are read
  by none of them. A column that may hold \<^verbatim>\<open>NULL\<close> has an option type. The enumerated types
  are those of section 2.
\<close>

datatype user_role = user | admin | moderator

datatype order_status =
    pending_payment | payment_processing | payment_failed | paid
  | preparing | shipped | in_transit | delivered | completed
  | cancelled | refunded

record auth_user =
  \<comment> \<open>\<^verbatim>\<open>auth.users\<close>, the platform's table of principals\<close>
  u_id :: uuid
  u_email :: "string option"

record profile =
  p_id :: uuid
  p_email :: string
  p_username :: string
  p_role :: "user_role option"
  p_setup_completed :: "bool option"
  p_setup_completed_at :: "timestamptz option"

record setup_progress =
  \<comment> \<open>\<^verbatim>\<open>profile_setup_progress\<close>\<close>
  sp_user_id :: uuid
  sp_step_name :: string
  sp_completed :: "bool option"

record listing =
  l_id :: uuid
  l_seller_id :: uuid
  l_status :: "string option"

record shopping_cart =
  c_id :: uuid
  c_user_id :: uuid
  c_expires_at :: "timestamptz option"

record cart_item =
  ci_id :: uuid
  ci_cart_id :: uuid
  ci_listing_id :: uuid

record order =
  o_id :: uuid
  o_buyer_id :: uuid
  o_seller_id :: uuid
  o_status :: order_status

record user_follow =
  \<comment> \<open>\<^verbatim>\<open>user_follows\<close>\<close>
  f_id :: uuid
  f_follower_id :: uuid
  f_following_id :: uuid

record user_stats =
  \<comment> \<open>\<^verbatim>\<open>user_stats_summary\<close>\<close>
  us_user_id :: uuid
  us_total_sales :: int
  us_total_purchases :: int
  us_total_spent :: rat
  us_total_earned :: rat
  us_average_rating :: "rat option"
  us_total_ratings :: int
  us_follower_count :: int
  us_following_count :: int

record brand_verification_request =
  bvr_user_id :: uuid
  bvr_verification_status :: "string option"

record social_media_account =
  sma_user_id :: uuid

record seller_payout =
  pay_seller_id :: uuid

record shipping_event =
  se_order_id :: uuid

record refund_request =
  rr_order_id :: uuid
  rr_requested_by :: uuid

record database =
  auth_users :: "auth_user list"
  profiles :: "profile list"
  profile_setup_progress :: "setup_progress list"
  shopping_carts :: "shopping_cart list"
  cart_items :: "cart_item list"
  orders :: "order list"
  user_follows :: "user_follow list"
  user_stats_summary :: "user_stats list"

text \<open>The conditions a statement can raise, by their PostgreSQL names.\<close>

datatype db_error =
    unique_violation
  | foreign_key_violation
  | not_null_violation
  | check_violation
  | string_data_right_truncation
  | insufficient_privilege

subsection \<open>Row-level security (section 5)\<close>

text \<open>
  Every table of section 5.1 has row-level security enabled, so a row is reached only
  through a policy. A policy is declared for one command or for \<^verbatim>\<open>ALL\<close>, with a \<^verbatim>\<open>USING\<close>
  expression (tested on a row that exists), a \<^verbatim>\<open>WITH CHECK\<close> expression (tested on a row
  to be stored), or both. All policies of the schema are permissive: the expressions of the
  policies that apply to a command are joined by \<^verbatim>\<open>OR\<close>, and with no applicable policy the
  row is refused. Where a policy gives no \<^verbatim>\<open>WITH CHECK\<close>, its \<^verbatim>\<open>USING\<close> expression is also the
  test of the new row. An expression sees \<^verbatim>\<open>auth.uid()\<close> (\<^verbatim>\<open>NULL\<close> for a request that is not
  signed in), the tables it queries, and the row.
\<close>

datatype command = SELECT | INSERT | UPDATE | DELETE

datatype policy_cmd = FOR_ALL | FOR command

type_synonym 'r qual = "uuid option \<Rightarrow> database \<Rightarrow> 'r \<Rightarrow> bool"

datatype 'r policy =
  Policy (pol_name: string) (pol_cmd: policy_cmd) (pol_using: "'r qual option")
    (pol_with_check: "'r qual option")

definition applies :: "command \<Rightarrow> 'r policy \<Rightarrow> bool" where
  "applies c p = (pol_cmd p = FOR_ALL \<or> pol_cmd p = FOR c)"

definition using_qual :: "'r policy \<Rightarrow> 'r qual" where
  "using_qual p uid db r = (case pol_using p of Some e \<Rightarrow> e uid db r | None \<Rightarrow> False)"

definition check_qual :: "'r policy \<Rightarrow> 'r qual" where
  "check_qual p uid db r =
     (case pol_with_check p of Some e \<Rightarrow> e uid db r | None \<Rightarrow> using_qual p uid db r)"

definition rls_using :: "'r policy list \<Rightarrow> command \<Rightarrow> 'r qual" where
  "rls_using ps c uid db r = list_ex (\<lambda>p. applies c p \<and> using_qual p uid db r) ps"

definition rls_with_check :: "'r policy list \<Rightarrow> command \<Rightarrow> 'r qual" where
  "rls_with_check ps c uid db r = list_ex (\<lambda>p. applies c p \<and> check_qual p uid db r) ps"

text \<open>
  What the policies of a table decide for each command. \<^verbatim>\<open>SELECT\<close> tests the existing row
  against the \<^verbatim>\<open>SELECT\<close> policies, and an \<^verbatim>\<open>INSERT\<close> that returns nothing tests the new row
  against the \<^verbatim>\<open>INSERT\<close> policies. An \<^verbatim>\<open>UPDATE\<close> or a \<^verbatim>\<open>DELETE\<close> that finds its rows with a
  \<^verbatim>\<open>WHERE\<close> clause reads them, so the \<^verbatim>\<open>SELECT\<close> policies are tested as well as the
  command's own: for \<^verbatim>\<open>DELETE\<close> on the existing row; for \<^verbatim>\<open>UPDATE\<close> on the existing row and
  on the row that replaces it, next to \<^verbatim>\<open>USING\<close> of the \<^verbatim>\<open>UPDATE\<close> policies on the existing
  row and their \<^verbatim>\<open>WITH CHECK\<close> on the new one.
\<close>

definition select_allowed :: "'r policy list \<Rightarrow> 'r qual" where
  "select_allowed ps uid db r = rls_using ps SELECT uid db r"

definition insert_allowed :: "'r policy list \<Rightarrow> 'r qual" where
  "insert_allowed ps uid db r = rls_with_check ps INSERT uid db r"

definition update_allowed :: "'r policy list \<Rightarrow> uuid option \<Rightarrow> database \<Rightarrow> 'r \<Rightarrow> 'r \<Rightarrow> bool" where
  "update_allowed ps uid db old new =
     (rls_using ps SELECT uid db old \<and> rls_using ps UPDATE uid db old
      \<and> rls_with_check ps UPDATE uid db new \<and> rls_using ps SELECT uid db new)"

definition delete_allowed :: "'r policy list \<Rightarrow> 'r qual" where
  "delete_allowed ps uid db r = (rls_using ps SELECT uid db r \<and> rls_using ps DELETE uid db r)"

text \<open>
  \<^verbatim>\<open>
  CREATE OR REPLACE FUNCTION is_admin(user_id uuid)
  RETURNS boolean AS $$
  BEGIN
      RETURN EXISTS (
          SELECT 1 FROM profiles
          WHERE id = user_id
          AND role = 'admin'
      );
  END;
  \<close>
  The policies do not call the function: they write the same subquery with \<^verbatim>\<open>auth.uid()\<close>
  for \<^verbatim>\<open>user_id\<close>, \<^verbatim>\<open>EXISTS (SELECT 1 FROM profiles WHERE id = auth.uid() AND role = 'admin')\<close>.
  (\<^verbatim>\<open>profiles\<close> is readable by everyone, so the subquery sees the whole table.)
\<close>

definition is_admin :: "uuid option \<Rightarrow> database \<Rightarrow> bool" where
  "is_admin user_id db =
     list_ex (\<lambda>p. Some (p_id p) = user_id \<and> p_role p = Some admin) (profiles db)"

text \<open>The policies of section 5.2, table by table, in the order of the file.\<close>

definition profiles_policies :: "profile policy list" where
  "profiles_policies =
    [Policy ''Anyone can view profiles'' (FOR SELECT) (Some (\<lambda>uid db r. True)) None,
     Policy ''Users can insert own profile'' (FOR INSERT) None (Some (\<lambda>uid db r. uid = Some (p_id r))),
     Policy ''Users can update own profile'' (FOR UPDATE) (Some (\<lambda>uid db r. uid = Some (p_id r))) None]"

definition listings_policies :: "listing policy list" where
  "listings_policies =
    [Policy ''Listings are viewable by everyone'' (FOR SELECT)
       (Some (\<lambda>uid db r. l_status r \<in> {Some ''active'', Some ''sold'', Some ''reserved''})) None,
     Policy ''Users can create their own listings'' (FOR INSERT) None
       (Some (\<lambda>uid db r. uid = Some (l_seller_id r))),
     Policy ''Users can update their own listings'' (FOR UPDATE)
       (Some (\<lambda>uid db r. uid = Some (l_seller_id r))) None,
     Policy ''Users can delete their own listings'' (FOR DELETE)
       (Some (\<lambda>uid db r. uid = Some (l_seller_id r))) None]"

definition shopping_carts_policies :: "shopping_cart policy list" where
  "shopping_carts_policies =
    [Policy ''Users can view their own cart'' (FOR SELECT) (Some (\<lambda>uid db r. uid = Some (c_user_id r))) None,
     Policy ''Users can create their own cart'' (FOR INSERT) None (Some (\<lambda>uid db r. uid = Some (c_user_id r))),
     Policy ''Users can update their own cart'' (FOR UPDATE) (Some (\<lambda>uid db r. uid = Some (c_user_id r))) None]"

definition orders_policies :: "order policy list" where
  "orders_policies =
    [Policy ''Users can view their orders'' (FOR SELECT)
       (Some (\<lambda>uid db r. uid = Some (o_buyer_id r) \<or> uid = Some (o_seller_id r))) None,
     Policy ''Buyers can create orders'' (FOR INSERT) None
       (Some (\<lambda>uid db r. uid = Some (o_buyer_id r))),
     Policy ''Buyers can cancel pending orders'' (FOR UPDATE)
       (Some (\<lambda>uid db r. uid = Some (o_buyer_id r) \<and> o_status r \<in> {pending_payment, payment_processing}))
       None,
     Policy ''Sellers can update order status'' (FOR UPDATE)
       (Some (\<lambda>uid db r. uid = Some (o_seller_id r)))
       (Some (\<lambda>uid db r. uid = Some (o_seller_id r)))]"

definition profile_setup_progress_policies :: "setup_progress policy list" where
  "profile_setup_progress_policies =
    [Policy ''Users can view own setup progress'' (FOR SELECT) (Some (\<lambda>uid db r. uid = Some (sp_user_id r))) None,
     Policy ''Users can insert own setup progress'' (FOR INSERT) None (Some (\<lambda>uid db r. uid = Some (sp_user_id r))),
     Policy ''Users can update own setup progress'' (FOR UPDATE) (Some (\<lambda>uid db r. uid = Some (sp_user_id r))) None]"

definition brand_verification_requests_policies :: "brand_verification_request policy list" where
  "brand_verification_requests_policies =
    [Policy ''Users can view own brand requests'' (FOR SELECT)
       (Some (\<lambda>uid db r. uid = Some (bvr_user_id r) \<or> is_admin uid db)) None,
     Policy ''Users can create brand requests'' (FOR INSERT) None
       (Some (\<lambda>uid db r. uid = Some (bvr_user_id r))),
     Policy ''Users can update own pending requests'' (FOR UPDATE)
       (Some (\<lambda>uid db r. uid = Some (bvr_user_id r) \<and> bvr_verification_status r = Some ''pending'')) None,
     Policy ''Admins can update any brand request'' (FOR UPDATE)
       (Some (\<lambda>uid db r. is_admin uid db)) None]"

definition social_media_accounts_policies :: "social_media_account policy list" where
  "social_media_accounts_policies =
    [Policy ''Users can view social media accounts'' (FOR SELECT) (Some (\<lambda>uid db r. True)) None,
     Policy ''Users can manage own social accounts'' FOR_ALL (Some (\<lambda>uid db r. uid = Some (sma_user_id r))) None]"

definition admin_approvals_policies :: "'r policy list" where
  "admin_approvals_policies =
    [Policy ''Only admins can view approvals'' (FOR SELECT) (Some (\<lambda>uid db r. is_admin uid db)) None,
     Policy ''Only admins can create approvals'' (FOR INSERT) None (Some (\<lambda>uid db r. is_admin uid db))]"

definition seller_payouts_policies :: "seller_payout policy list" where
  "seller_payouts_policies =
    [Policy ''Sellers can view own payouts'' (FOR SELECT) (Some (\<lambda>uid db r. uid = Some (pay_seller_id r))) None,
     Policy ''Only system can create payouts'' (FOR INSERT) None (Some (\<lambda>uid db r. False))]"

definition shipping_events_policies :: "shipping_event policy list" where
  "shipping_events_policies =
    [Policy ''Users can view shipping events for their orders'' (FOR SELECT)
       (Some (\<lambda>uid db r. list_ex (\<lambda>ord. o_id ord = se_order_id r
                 \<and> (Some (o_buyer_id ord) = uid \<or> Some (o_seller_id ord) = uid)) (orders db))) None]"

definition admin_audit_log_policies :: "'r policy list" where
  "admin_audit_log_policies =
    [Policy ''Only admins can view audit log'' (FOR SELECT) (Some (\<lambda>uid db r. is_admin uid db)) None]"

definition service_role_only_policies :: "'r policy list" where
  \<comment> \<open>the same policy on \<^verbatim>\<open>query_performance_log\<close>, \<^verbatim>\<open>database_health_metrics\<close> and \<^verbatim>\<open>slow_queries\<close>\<close>
  "service_role_only_policies =
    [Policy ''Service role only'' FOR_ALL (Some (\<lambda>uid db r. False)) (Some (\<lambda>uid db r. False))]"

definition refund_requests_policies :: "refund_request policy list" where
  "refund_requests_policies =
    [Policy ''Users can view own refund requests'' (FOR SELECT)
       (Some (\<lambda>uid db r. Some (rr_requested_by r) = uid
                \<or> list_ex (\<lambda>ord. o_id ord = rr_order_id r \<and> Some (o_seller_id ord) = uid) (orders db))) None,
     Policy ''Buyers can create refund requests'' (FOR INSERT) None
       (Some (\<lambda>uid db r. Some (rr_requested_by r) = uid
                \<and> list_ex (\<lambda>ord. o_id ord = rr_order_id r \<and> Some (o_buyer_id ord) = uid) (orders db))),
     Policy ''Only admins can update refund requests'' (FOR UPDATE)
       (Some (\<lambda>uid db r. is_admin uid db)) None]"

text \<open>
  The effect of \<^verbatim>\<open>UPDATE orders SET ... WHERE ...\<close> on one row that the \<^verbatim>\<open>WHERE\<close> clause
  selects, \<open>set\<close> being the assignments: a row that the \<^verbatim>\<open>USING\<close> expressions refuse is passed
  over and stays as it is; a new row that the \<^verbatim>\<open>WITH CHECK\<close> expressions refuse aborts the
  statement. (On \<^verbatim>\<open>orders\<close> the \<^verbatim>\<open>SELECT\<close> policy admits every row that an \<^verbatim>\<open>UPDATE\<close> policy
  admits, so that testing it too changes nothing.)
\<close>

definition update_order_row :: "uuid option \<Rightarrow> database \<Rightarrow> (order \<Rightarrow> order) \<Rightarrow> order \<Rightarrow> db_error + order" where
  "update_order_row uid db set_cols old =
     (if \<not> rls_using orders_policies UPDATE uid db old then Inr old
      else if \<not> rls_with_check orders_policies UPDATE uid db (set_cols old) then Inl insufficient_privilege
      else Inr (set_cols old))"

subsection \<open>Statements on the tables, with their constraints\<close>

text \<open>
  An \<^verbatim>\<open>INSERT\<close> stores its row unless a constraint of the table's declaration refuses it;
  a generated primary key (\<^verbatim>\<open>uuid_generate_v4()\<close>) and the time of \<^verbatim>\<open>NOW()\<close> are arguments.

  Text is modelled for ASCII, where a character is one \<open>char\<close>: the lengths of \<^verbatim>\<open>VARCHAR(n)\<close>
  count characters, and \<^verbatim>\<open>LOWER\<close> of a letter outside ASCII depends on the locale of the
  database. Storing a text longer than \<open>n\<close> in a \<^verbatim>\<open>VARCHAR(n)\<close> column raises, unless all that
  exceeds \<open>n\<close> is spaces, which are then cut off.
\<close>

definition printable_ascii :: "string \<Rightarrow> bool" where
  \<comment> \<open>visible ASCII characters only: no space, no control character\<close>
  "printable_ascii s = list_all (\<lambda>c. (32::nat) < of_char c \<and> of_char c < (127::nat)) s"

definition varchar :: "nat \<Rightarrow> string \<Rightarrow> db_error + string" where
  "varchar n s =
     (if length s \<le> n then Inr s
      else if list_all (\<lambda>c. c = CHR '' '') (drop n s) then Inr (take n s)
      else Inl string_data_right_truncation)"

definition insert_profile :: "profile \<Rightarrow> database \<Rightarrow> db_error + database" where
  \<comment> \<open>\<^verbatim>\<open>email VARCHAR(255) NOT NULL\<close>, \<^verbatim>\<open>username VARCHAR(30) UNIQUE NOT NULL\<close>,
      \<^verbatim>\<open>id UUID PRIMARY KEY REFERENCES auth.users(id)\<close>\<close>
  "insert_profile r db =
     (case varchar 255 (p_email r) of
        Inl e \<Rightarrow> Inl e
      | Inr email \<Rightarrow>
         (case varchar 30 (p_username r) of
            Inl e \<Rightarrow> Inl e
          | Inr username \<Rightarrow>
              if list_ex (\<lambda>p. p_id p = p_id r) (profiles db) then Inl unique_violation
              else if list_ex (\<lambda>p. p_username p = username) (profiles db) then Inl unique_violation
              else if \<not> list_ex (\<lambda>u. u_id u = p_id r) (auth_users db) then Inl foreign_key_violation
              else Inr (db\<lparr>profiles := profiles db @ [r\<lparr>p_email := email, p_username := username\<rparr>]\<rparr>)))"

definition insert_shopping_cart :: "shopping_cart \<Rightarrow> database \<Rightarrow> db_error + database" where
  \<comment> \<open>\<^verbatim>\<open>id UUID PRIMARY KEY\<close>, \<^verbatim>\<open>user_id UUID NOT NULL REFERENCES profiles(id)\<close>, \<^verbatim>\<open>UNIQUE(user_id)\<close>\<close>
  "insert_shopping_cart r db =
     (if list_ex (\<lambda>c. c_id c = c_id r) (shopping_carts db) then Inl unique_violation
      else if list_ex (\<lambda>c. c_user_id c = c_user_id r) (shopping_carts db) then Inl unique_violation
      else if \<not> list_ex (\<lambda>p. p_id p = c_user_id r) (profiles db) then Inl foreign_key_violation
      else Inr (db\<lparr>shopping_carts := shopping_carts db @ [r]\<rparr>))"

definition insert_user_stats_summary :: "user_stats \<Rightarrow> database \<Rightarrow> db_error + database" where
  \<comment> \<open>\<^verbatim>\<open>user_id UUID PRIMARY KEY REFERENCES profiles(id)\<close>\<close>
  "insert_user_stats_summary r db =
     (if list_ex (\<lambda>s. us_user_id s = us_user_id r) (user_stats_summary db) then Inl unique_violation
      else if \<not> list_ex (\<lambda>p. p_id p = us_user_id r) (profiles db) then Inl foreign_key_violation
      else Inr (db\<lparr>user_stats_summary := user_stats_summary db @ [r]\<rparr>))"

definition interval_30_days :: int where
  \<comment> \<open>\<^verbatim>\<open>INTERVAL '30 days'\<close>, in seconds\<close>
  "interval_30_days = 30 * 86400"

definition new_shopping_cart :: "uuid \<Rightarrow> uuid \<Rightarrow> timestamptz \<Rightarrow> shopping_cart" where
  \<comment> \<open>the row of \<^verbatim>\<open>INSERT INTO shopping_carts (user_id) VALUES (...)\<close>:
      \<^verbatim>\<open>expires_at TIMESTAMPTZ DEFAULT NOW() + INTERVAL '30 days'\<close>\<close>
  "new_shopping_cart new_id user_uuid now =
     \<lparr>c_id = new_id, c_user_id = user_uuid, c_expires_at = Some (now + interval_30_days)\<rparr>"

definition new_user_stats :: "uuid \<Rightarrow> user_stats" where
  \<comment> \<open>the row of \<^verbatim>\<open>INSERT INTO user_stats_summary (user_id) VALUES (...)\<close>: the counters and
      the sums default to 0, \<^verbatim>\<open>average_rating\<close> has no default\<close>
  "new_user_stats user_uuid =
     \<lparr>us_user_id = user_uuid, us_total_sales = 0, us_total_purchases = 0, us_total_spent = 0,
      us_total_earned = 0, us_average_rating = None, us_total_ratings = 0, us_follower_count = 0,
      us_following_count = 0\<rparr>"

text \<open>
  \<^verbatim>\<open>
  CREATE OR REPLACE FUNCTION get_or_create_cart(user_uuid UUID)
  RETURNS UUID AS $$
  DECLARE
      cart_uuid UUID;
  BEGIN
      SELECT id INTO cart_uuid FROM shopping_carts
      WHERE user_id = user_uuid
      AND expires_at > NOW();

      IF cart_uuid IS NULL THEN
          INSERT INTO shopping_carts (user_id)
          VALUES (user_uuid)
          RETURNING id INTO cart_uuid;
      END IF;

      RETURN cart_uuid;
  END;
  \<close>
  \<^verbatim>\<open>SELECT ... INTO\<close> takes the first row found, and \<^verbatim>\<open>NULL\<close> when there is none; a \<^verbatim>\<open>NULL\<close>
  \<^verbatim>\<open>expires_at\<close> does not satisfy the comparison. The function is not \<^verbatim>\<open>SECURITY DEFINER\<close>,
  so its statements pass through the policies of \<^verbatim>\<open>shopping_carts\<close> for the caller, whose
  \<^verbatim>\<open>auth.uid()\<close> is the first argument: the \<^verbatim>\<open>SELECT\<close> sees the rows its policy admits, and the
  \<^verbatim>\<open>INSERT ... RETURNING\<close> must pass the \<^verbatim>\<open>INSERT\<close> and the \<^verbatim>\<open>SELECT\<close> policy before the
  constraints are tested. The result is the cart's id and the database after the call.
\<close>

definition get_or_create_cart ::
  "uuid option \<Rightarrow> uuid \<Rightarrow> timestamptz \<Rightarrow> uuid \<Rightarrow> database \<Rightarrow> db_error + uuid \<times> database" where
  "get_or_create_cart uid user_uuid now new_id db =
     (case filter (\<lambda>c. select_allowed shopping_carts_policies uid db c
                      \<and> c_user_id c = user_uuid
                      \<and> (case c_expires_at c of Some e \<Rightarrow> now < e | None \<Rightarrow> False)) (shopping_carts db) of
        c # _ \<Rightarrow> Inr (c_id c, db)
      | [] \<Rightarrow>
         (if \<not> (insert_allowed shopping_carts_policies uid db (new_shopping_cart new_id user_uuid now)
                 \<and> select_allowed shopping_carts_policies uid db (new_shopping_cart new_id user_uuid now))
          then Inl insufficient_privilege
          else
            (case insert_shopping_cart (new_shopping_cart new_id user_uuid now) db of
               Inl e \<Rightarrow> Inl e
             | Inr db' \<Rightarrow> Inr (new_id, db'))))"

text \<open>
  \<^verbatim>\<open>LOWER\<close> on the letters of ASCII, and \<^verbatim>\<open>SPLIT_PART(s, d, n)\<close> for a delimiter of one
  character: the \<open>n\<close>-th field of \<open>s\<close> cut at every \<open>d\<close>, counted from 1, and the empty string
  when there are fewer fields.
\<close>

definition lower_char :: "char \<Rightarrow> char" where
  "lower_char c =
     (if (65::nat) \<le> of_char c \<and> of_char c \<le> (90::nat) then char_of (of_char c + (32::nat)) else c)"

definition lower :: "string \<Rightarrow> string" where
  "lower s = map lower_char s"

fun split_fields :: "char \<Rightarrow> string \<Rightarrow> string list" where
  "split_fields d [] = [[]]"
| "split_fields d (c # s) =
     (if c = d then [] # split_fields d s
      else (case split_fields d s of [] \<Rightarrow> [[c]] | f # fs \<Rightarrow> (c # f) # fs))"

definition split_part :: "string \<Rightarrow> char \<Rightarrow> nat \<Rightarrow> string" where
  "split_part s d n =
     (if 1 \<le> n \<and> n \<le> length (split_fields d s) then split_fields d s ! (n - 1) else [])"

text \<open>
  \<^verbatim>\<open>
  CREATE OR REPLACE FUNCTION handle_new_user()
  RETURNS TRIGGER AS $$
  BEGIN
      INSERT INTO profiles (id, email, username)
      VALUES (
          NEW.id,
          NEW.email,
          LOWER(SPLIT_PART(NEW.email, '@', 1))
      );

      INSERT INTO shopping_carts (user_id)
      VALUES (NEW.id);

      INSERT INTO user_stats_summary (user_id)
      VALUES (NEW.id);

      RETURN NEW;
  END;
  $$ LANGUAGE plpgsql SECURITY DEFINER;
  \<close>
  The columns not named take their defaults: \<^verbatim>\<open>role user_role DEFAULT 'user'\<close>,
  \<^verbatim>\<open>setup_completed BOOLEAN DEFAULT false\<close>, no \<^verbatim>\<open>setup_completed_at\<close>. A \<^verbatim>\<open>NULL\<close> email
  makes both \<^verbatim>\<open>email\<close> and \<^verbatim>\<open>username\<close> \<^verbatim>\<open>NULL\<close>, which \<^verbatim>\<open>NOT NULL\<close> refuses. The first
  statement that raises ends the function with its error. The function is
  \<^verbatim>\<open>SECURITY DEFINER\<close>: its statements run as its owner, past the row-level policies.
\<close>

definition handle_new_user :: "auth_user \<Rightarrow> uuid \<Rightarrow> timestamptz \<Rightarrow> database \<Rightarrow> db_error + database" where
  "handle_new_user NEW cart_id now db =
     (case u_email NEW of
        None \<Rightarrow> Inl not_null_violation
      | Some email \<Rightarrow>
         (case insert_profile
                 \<lparr>p_id = u_id NEW, p_email = email,
                  p_username = lower (split_part email (CHR ''@'') 1),
                  p_role = Some user, p_setup_completed = Some False, p_setup_completed_at = None\<rparr> db of
            Inl e \<Rightarrow> Inl e
          | Inr db1 \<Rightarrow>
             (case insert_shopping_cart (new_shopping_cart cart_id (u_id NEW) now) db1 of
                Inl e \<Rightarrow> Inl e
              | Inr db2 \<Rightarrow> insert_user_stats_summary (new_user_stats (u_id NEW)) db2)))"

text \<open>
  \<^verbatim>\<open>
  CREATE TRIGGER on_auth_user_created
  AFTER INSERT ON auth.users
  FOR EACH ROW EXECUTE FUNCTION handle_new_user();
  \<close>
  Creating a principal is the \<^verbatim>\<open>INSERT\<close> into \<^verbatim>\<open>auth.users\<close> (whose primary key is \<open>id\<close>),
  which fires the trigger. A statement is atomic: an error raised by the statement or by a
  trigger it fires undoes all of it, and the database is as it was before the statement.
\<close>

definition insert_auth_user :: "auth_user \<Rightarrow> uuid \<Rightarrow> timestamptz \<Rightarrow> database \<Rightarrow> db_error + database" where
  "insert_auth_user NEW cart_id now db =
     (if list_ex (\<lambda>u. u_id u = u_id NEW) (auth_users db) then Inl unique_violation
      else handle_new_user NEW cart_id now (db\<lparr>auth_users := auth_users db @ [NEW]\<rparr>))"

definition run_statement :: "(database \<Rightarrow> db_error + database) \<Rightarrow> database \<Rightarrow> db_error option \<times> database" where
  "run_statement stmt db = (case stmt db of Inl e \<Rightarrow> (Some e, db) | Inr db' \<Rightarrow> (None, db'))"

definition cart_items_reference_carts :: "database \<Rightarrow> bool" where
  \<comment> \<open>\<^verbatim>\<open>cart_items.cart_id UUID NOT NULL REFERENCES shopping_carts(id)\<close>\<close>
  "cart_items_reference_carts db =
     list_all (\<lambda>i. list_ex (\<lambda>c. c_id c = ci_cart_id i) (shopping_carts db)) (cart_items db)"

text \<open>
  \<^verbatim>\<open>
  CREATE OR REPLACE FUNCTION update_setup_completion()
  RETURNS TRIGGER AS $$
  BEGIN
      -- Check if all required steps are completed
      IF NEW.step_name IN ('avatar_selected', 'profile_info_completed', 'account_type_selected') THEN
          -- Check if all basic steps are done
          IF EXISTS (
              SELECT 1 FROM profile_setup_progress
              WHERE user_id = NEW.user_id
              AND step_name = 'avatar_selected'
              AND completed = true
          ) AND EXISTS (
              SELECT 1 FROM profile_setup_progress
              WHERE user_id = NEW.user_id
              AND step_name = 'profile_info_completed'
              AND completed = true
          ) THEN
              -- Update profile setup_completed
              UPDATE profiles
              SET setup_completed = true,
                  setup_completed_at = now()
              WHERE id = NEW.user_id;
          END IF;
      END IF;
      RETURN NEW;
  END;
  \<close>
  \<open>step_completed\<close> is the subquery under \<^verbatim>\<open>EXISTS\<close>. The function runs for the principal
  whose write fired it. The policies of \<^verbatim>\<open>profile_setup_progress\<close> admit a write only to a row
  whose \<^verbatim>\<open>user_id\<close> is \<^verbatim>\<open>auth.uid()\<close>; for that principal the \<^verbatim>\<open>SELECT\<close> policy of
  \<^verbatim>\<open>profile_setup_progress\<close> shows the rows of the subqueries and the policies of \<^verbatim>\<open>profiles\<close>
  admit the \<^verbatim>\<open>UPDATE\<close> of the row \<^verbatim>\<open>id = NEW.user_id\<close>, so the policies change nothing in the
  function.
\<close>

definition step_completed :: "database \<Rightarrow> uuid \<Rightarrow> string \<Rightarrow> bool" where
  "step_completed db uid step =
     list_ex (\<lambda>r. sp_user_id r = uid \<and> sp_step_name r = step \<and> sp_completed r = Some True)
       (profile_setup_progress db)"

definition update_setup_completion :: "setup_progress \<Rightarrow> timestamptz \<Rightarrow> database \<Rightarrow> database" where
  "update_setup_completion NEW now db =
     (if sp_step_name NEW \<in> {''avatar_selected'', ''profile_info_completed'', ''account_type_selected''}
      then
        (if step_completed db (sp_user_id NEW) ''avatar_selected''
            \<and> step_completed db (sp_user_id NEW) ''profile_info_completed''
         then db\<lparr>profiles :=
                map (\<lambda>p. if p_id p = sp_user_id NEW
                          then p\<lparr>p_setup_completed := Some True, p_setup_completed_at := Some now\<rparr>
                          else p) (profiles db)\<rparr>
         else db)
      else db)"

text \<open>
  \<^verbatim>\<open>
  CREATE TRIGGER trigger_update_setup_completion
  AFTER INSERT OR UPDATE ON profile_setup_progress
  FOR EACH ROW EXECUTE FUNCTION update_setup_completion();
  \<close>
  The two statements that fire it. \<^verbatim>\<open>profile_setup_progress\<close> has \<^verbatim>\<open>UNIQUE(user_id, step_name)\<close>
  and \<^verbatim>\<open>user_id\<close> references \<^verbatim>\<open>auth.users(id)\<close>. The \<^verbatim>\<open>UPDATE\<close> is
  \<^verbatim>\<open>UPDATE profile_setup_progress SET completed = v WHERE user_id = u AND step_name = s\<close>; the
  trigger runs once for every row it has changed, after the rows are written.
\<close>

definition insert_setup_progress :: "setup_progress \<Rightarrow> timestamptz \<Rightarrow> database \<Rightarrow> db_error + database" where
  "insert_setup_progress NEW now db =
     (if list_ex (\<lambda>r. sp_user_id r = sp_user_id NEW \<and> sp_step_name r = sp_step_name NEW)
           (profile_setup_progress db) then Inl unique_violation
      else if \<not> list_ex (\<lambda>u. u_id u = sp_user_id NEW) (auth_users db) then Inl foreign_key_violation
      else Inr (update_setup_completion NEW now
                  (db\<lparr>profile_setup_progress := profile_setup_progress db @ [NEW]\<rparr>)))"

definition update_setup_progress :: "uuid \<Rightarrow> string \<Rightarrow> bool option \<Rightarrow> timestamptz \<Rightarrow> database \<Rightarrow> database" where
  "update_setup_progress uid step v now db =
     (let hit = (\<lambda>r. sp_user_id r = uid \<and> sp_step_name r = step);
          rows = map (\<lambda>r. if hit r then r\<lparr>sp_completed := v\<rparr> else r) (profile_setup_progress db)
      in fold (\<lambda>NEW d. update_setup_completion NEW now d) (filter hit rows)
           (db\<lparr>profile_setup_progress := rows\<rparr>))"

definition profile_of :: "database \<Rightarrow> uuid \<Rightarrow> profile option" where
  \<comment> \<open>the row of \<^verbatim>\<open>profiles\<close> with this primary key\<close>
  "profile_of db uid = find (\<lambda>p. p_id p = uid) (profiles db)"

text \<open>
  \<^verbatim>\<open>
  CREATE TABLE user_follows (
      id UUID PRIMARY KEY DEFAULT uuid_generate_v4(),
      follower_id UUID NOT NULL REFERENCES profiles(id) ON DELETE CASCADE,
      following_id UUID NOT NULL REFERENCES profiles(id) ON DELETE CASCADE,
      created_at TIMESTAMPTZ DEFAULT NOW(),
      UNIQUE(follower_id, following_id),
      CHECK (follower_id != following_id)
  );
  \<close>
  The statements that write the table: \<^verbatim>\<open>INSERT\<close> of a row, \<^verbatim>\<open>UPDATE ... SET ... WHERE ...\<close>
  (\<open>set_cols\<close> the assignments, \<open>wh\<close> the condition) and \<^verbatim>\<open>DELETE ... WHERE ...\<close>, which is also
  what the cascade from \<^verbatim>\<open>profiles\<close> does. The \<^verbatim>\<open>CHECK\<close> is tested on every row written, then
  the keys.
\<close>

definition user_follows_keys_ok :: "user_follow list \<Rightarrow> bool" where
  "user_follows_keys_ok rows =
     (distinct (map f_id rows) \<and> distinct (map (\<lambda>r. (f_follower_id r, f_following_id r)) rows))"

definition user_follows_refs_ok :: "database \<Rightarrow> user_follow list \<Rightarrow> bool" where
  "user_follows_refs_ok db rows =
     list_all (\<lambda>r. list_ex (\<lambda>p. p_id p = f_follower_id r) (profiles db)
                  \<and> list_ex (\<lambda>p. p_id p = f_following_id r) (profiles db)) rows"

definition store_user_follows :: "user_follow list \<Rightarrow> user_follow list \<Rightarrow> database \<Rightarrow> db_error + database" where
  \<comment> \<open>\<open>written\<close> are the rows the statement writes, \<open>rows\<close> the table after it\<close>
  "store_user_follows written rows db =
     (if list_ex (\<lambda>r. \<not> f_follower_id r \<noteq> f_following_id r) written then Inl check_violation
      else if \<not> user_follows_keys_ok rows then Inl unique_violation
      else if \<not> user_follows_refs_ok db written then Inl foreign_key_violation
      else Inr (db\<lparr>user_follows := rows\<rparr>))"

definition insert_user_follow :: "user_follow \<Rightarrow> database \<Rightarrow> db_error + database" where
  "insert_user_follow r db = store_user_follows [r] (user_follows db @ [r]) db"

definition update_user_follows ::
  "(user_follow \<Rightarrow> bool) \<Rightarrow> (user_follow \<Rightarrow> user_follow) \<Rightarrow> database \<Rightarrow> db_error + database" where
  "update_user_follows wh set_cols db =
     store_user_follows (map set_cols (filter wh (user_follows db)))
       (map (\<lambda>r. if wh r then set_cols r else r) (user_follows db)) db"

definition delete_user_follows :: "(user_follow \<Rightarrow> bool) \<Rightarrow> database \<Rightarrow> database" where
  "delete_user_follows wh db = db\<lparr>user_follows := filter (\<lambda>r. \<not> wh r) (user_follows db)\<rparr>"

text \<open>
  The states of the database that statements reach from the empty table; a statement on
  another table leaves \<^verbatim>\<open>user_follows\<close> as it is.
\<close>

inductive follows_reachable :: "database \<Rightarrow> bool" where
  created: "user_follows db = [] \<Longrightarrow> follows_reachable db"
| inserted: "follows_reachable db \<Longrightarrow> insert_user_follow r db = Inr db' \<Longrightarrow> follows_reachable db'"
| updated: "follows_reachable db \<Longrightarrow> update_user_follows wh set_cols db = Inr db' \<Longrightarrow> follows_reachable db'"
| deleted: "follows_reachable db \<Longrightarrow> follows_reachable (delete_user_follows wh db)"
| elsewhere: "follows_reachable db \<Longrightarrow> user_follows db' = user_follows db \<Longrightarrow> follows_reachable db'"

section \<open>Properties\<close>

subsection \<open>Platform fee\<close>

lemma round_numeric_nonneg:
  assumes "0 \<le> x"
  shows "x - 1 / 200 < round_numeric x 2 \<and> round_numeric x 2 \<le> x + 1 / 200 \<and> 0 \<le> round_numeric x 2"
proof -
  let ?k = "\<lfloor>x * 100 + 1 / 2\<rfloor>"
  have r: "round_numeric x 2 = of_int ?k / 100"
    using assms by (simp add: round_numeric_def)
  have lo: "x * 100 + 1 / 2 < of_int ?k + 1" and hi: "of_int ?k \<le> x * 100 + 1 / 2"
    using floor_correct [of "x * 100 + 1 / 2"] by simp_all
  have "0 \<le> x * 100 + 1 / 2" using assms by simp
  then have "0 \<le> ?k" by simp
  then have nn: "(0::rat) \<le> of_int ?k" by simp
  from lo hi nn show ?thesis unfolding r by (simp add: field_simps)
qed

lemma round_numeric_neg:
  assumes "x < 0"
  shows "round_numeric x 2 = - round_numeric (- x) 2"
  using assms by (simp add: round_numeric_def)

lemma round_numeric_hundredths: "\<exists>k::int. round_numeric x 2 = of_int k / 100"
proof (cases "x < 0")
  case True
  then have "round_numeric x 2 = of_int (- \<lfloor>- x * 100 + 1 / 2\<rfloor>) / 100"
    by (simp add: round_numeric_def)
  then show ?thesis by blast
next
  case False
  then have "round_numeric x 2 = of_int \<lfloor>x * 100 + 1 / 2\<rfloor> / 100"
    by (simp add: round_numeric_def)
  then show ?thesis by blast
qed

text \<open>
  C6. \<open>calculate_platform_fee\<close> is a function of its amount alone, and its value is the
  amount times 0.05 rounded to two decimal places: a whole number of hundredths, within half
  a hundredth of \<open>a * 0.05\<close> (a tie goes away from zero), of the sign of \<open>a\<close>.
\<close>

theorem calculate_platform_fee_is_rounded_five_percent:
  "(\<exists>k::int. calculate_platform_fee a = of_int k / 100)
   \<and> \<bar>a * (5 / 100)\<bar> - 1 / 200 < \<bar>calculate_platform_fee a\<bar>
   \<and> \<bar>calculate_platform_fee a\<bar> \<le> \<bar>a * (5 / 100)\<bar> + 1 / 200
   \<and> 0 \<le> calculate_platform_fee a * a"
proof -
  let ?x = "a * (5 / 100)"
  have fee: "calculate_platform_fee a = round_numeric ?x 2"
    by (simp add: calculate_platform_fee_def)
  have int: "\<exists>k::int. calculate_platform_fee a = of_int k / 100"
    unfolding fee by (rule round_numeric_hundredths)
  show ?thesis
  proof (cases "a < 0")
    case False
    then have x: "0 \<le> ?x" by simp
    from round_numeric_nonneg [OF x] False int show ?thesis
      unfolding fee by (simp add: abs_if)
  next
    case True
    then have x: "?x < 0" by simp
    then have y: "0 \<le> - ?x" by simp
    have neg: "round_numeric ?x 2 = - round_numeric (- ?x) 2"
      using x by (rule round_numeric_neg)
    have prod: "0 \<le> round_numeric (- ?x) 2 * (- a)"
      using round_numeric_nonneg [OF y] True by (intro mult_nonneg_nonneg) simp_all
    from round_numeric_nonneg [OF y] True int prod show ?thesis
      unfolding fee neg by (simp add: abs_if)
  qed
qed

subsection \<open>Order numbers\<close>

lemma digit_char_table:
  "list_all (\<lambda>n. is_digit (digit_char n) \<and> of_char (digit_char n) - 48 = n) [0..<10]"
  by code_simp

lemma digit_char_ok: "n < 10 \<Longrightarrow> is_digit (digit_char n) \<and> of_char (digit_char n) - 48 = n"
  using digit_char_table by (simp add: list_all_iff)

lemma is_digit_digit_char: "n < 10 \<Longrightarrow> is_digit (digit_char n)"
  by (simp add: digit_char_ok)

lemma of_char_digit_char: "n < 10 \<Longrightarrow> of_char (digit_char n) - 48 = n"
  by (simp add: digit_char_ok)

lemma nat_to_text_digits: "list_all is_digit (nat_to_text n)"
proof (induction n rule: nat_to_text.induct)
  case (1 n)
  show ?case
  proof (cases "n < 10")
    case True
    then show ?thesis by (subst nat_to_text.simps) (simp add: is_digit_digit_char)
  next
    case False
    with 1 show ?thesis by (subst nat_to_text.simps) (simp add: is_digit_digit_char)
  qed
qed

lemma digits_value_append: "digits_value (a @ b) = digits_value a * 10 ^ length b + digits_value b"
  by (induction a) (simp_all add: algebra_simps power_add)

lemma digits_value_nat_to_text: "digits_value (nat_to_text n) = n"
proof (induction n rule: nat_to_text.induct)
  case (1 n)
  show ?case
  proof (cases "n < 10")
    case True
    then show ?thesis by (subst nat_to_text.simps) (simp add: of_char_digit_char)
  next
    case False
    with 1 have "digits_value (nat_to_text (n div 10)) = n div 10" by simp
    with False show ?thesis
      by (subst nat_to_text.simps) (simp add: digits_value_append of_char_digit_char)
  qed
qed

lemma length_nat_to_text: "n < 10 ^ k \<Longrightarrow> 0 < k \<Longrightarrow> length (nat_to_text n) \<le> k"
proof (induction n arbitrary: k rule: nat_to_text.induct)
  case (1 n)
  show ?case
  proof (cases "n < 10")
    case True
    with 1 show ?thesis by (subst nat_to_text.simps) simp
  next
    case False
    from 1(3) obtain j where k: "k = Suc j" by (cases k) auto
    with 1(2) False have j: "0 < j" by (cases j) auto
    from 1(2) k have "n div 10 < 10 ^ j" by (simp add: less_mult_imp_div_less mult.commute)
    with 1(1) False j have "length (nat_to_text (n div 10)) \<le> j" by simp
    with False k show ?thesis by (subst nat_to_text.simps) simp
  qed
qed

lemma nat_to_text_nonempty: "nat_to_text n \<noteq> []"
  by (subst nat_to_text.simps) simp

lemma zero_pad_length: "length s \<le> w \<Longrightarrow> length (zero_pad w s) = w"
  by (simp add: zero_pad_def)

lemma is_digit_zero: "is_digit (CHR ''0'')"
  by (simp add: is_digit_def)

lemma zero_pad_digits: "list_all is_digit s \<Longrightarrow> list_all is_digit (zero_pad w s)"
  by (auto simp: zero_pad_def list_all_iff is_digit_zero)

lemma digits_value_zeros: "digits_value (replicate k (CHR ''0'') @ s) = digits_value s"
  by (induction k) simp_all

lemma digits_value_zero_pad: "digits_value (zero_pad w s) = digits_value s"
  by (simp add: zero_pad_def digits_value_zeros)

lemma lpad_zero: "length s \<le> w \<Longrightarrow> lpad s w ''0'' = zero_pad w s"
  by (simp add: lpad_def zero_pad_def)

lemma field_ok:
  assumes "n < 10 ^ w" "0 < w"
  shows "length (zero_pad w (nat_to_text n)) = w \<and> list_all is_digit (zero_pad w (nat_to_text n))
         \<and> digits_value (zero_pad w (nat_to_text n)) = n"
  using assms
  by (simp add: zero_pad_length length_nat_to_text zero_pad_digits nat_to_text_digits
      digits_value_zero_pad digits_value_nat_to_text)

text \<open>
  C5. For a date of \<^verbatim>\<open>NOW()\<close> whose year has at most four digits and a random draw below
  10000, the order number is \<^verbatim>\<open>ORD-\<close>, then eight decimal digits that write the year, the
  month and the day, then a hyphen, then exactly four decimal digits (the draw, zero-padded).
\<close>

theorem generate_order_number_format:
  assumes "valid_date now" and "rnd < 10000"
  shows "\<exists>ds rs. generate_order_number now rnd = ''ORD-'' @ ds @ ''-'' @ rs
           \<and> length ds = 8 \<and> list_all is_digit ds
           \<and> digits_value (take 4 ds) = year now
           \<and> digits_value (take 2 (drop 4 ds)) = month now
           \<and> digits_value (drop 6 ds) = day now
           \<and> length rs = 4 \<and> list_all is_digit rs \<and> digits_value rs = rnd"
proof -
  let ?y = "zero_pad 4 (nat_to_text (year now))"
  let ?m = "zero_pad 2 (nat_to_text (month now))"
  let ?d = "zero_pad 2 (nat_to_text (day now))"
  let ?r = "zero_pad 4 (nat_to_text rnd)"
  from assms(1) have "year now < 10 ^ 4" "month now < 10 ^ 2" "day now < 10 ^ 2"
    by (simp_all add: valid_date_def)
  then have y: "length ?y = 4 \<and> list_all is_digit ?y \<and> digits_value ?y = year now"
    and m: "length ?m = 2 \<and> list_all is_digit ?m \<and> digits_value ?m = month now"
    and d: "length ?d = 2 \<and> list_all is_digit ?d \<and> digits_value ?d = day now"
    by (simp_all add: field_ok)
  from assms(2) have "rnd < 10 ^ 4" by simp
  then have r: "length ?r = 4 \<and> list_all is_digit ?r \<and> digits_value ?r = rnd"
    by (simp add: field_ok)
  have "length (nat_to_text rnd) \<le> 4"
    using \<open>rnd < 10 ^ 4\<close> by (simp add: length_nat_to_text)
  then have pad: "lpad (nat_to_text rnd) 4 ''0'' = ?r"
    by (rule lpad_zero)
  have gen: "generate_order_number now rnd = ''ORD-'' @ (?y @ ?m @ ?d) @ ''-'' @ ?r"
    by (simp add: generate_order_number_def to_char_YYYYMMDD_def pad)
  have "length (?y @ ?m @ ?d) = 8" "list_all is_digit (?y @ ?m @ ?d)"
    "take 4 (?y @ ?m @ ?d) = ?y" "take 2 (drop 4 (?y @ ?m @ ?d)) = ?m" "drop 6 (?y @ ?m @ ?d) = ?d"
    using y m d by simp_all
  with gen y m d r show ?thesis by metis
qed

theorem generate_order_number_format_witness:
  "valid_date \<lparr>year = 2025, month = 7, day = 9\<rparr> \<and> (42::nat) < 10000
   \<and> generate_order_number \<lparr>year = 2025, month = 7, day = 9\<rparr> 42 = ''ORD-20250709-0042''
   \<and> (\<exists>ds rs. generate_order_number \<lparr>year = 2025, month = 7, day = 9\<rparr> 42 = ''ORD-'' @ ds @ ''-'' @ rs
           \<and> length ds = 8 \<and> list_all is_digit ds
           \<and> digits_value (take 4 ds) = 2025
           \<and> digits_value (take 2 (drop 4 ds)) = 7
           \<and> digits_value (drop 6 ds) = 9
           \<and> length rs = 4 \<and> list_all is_digit rs \<and> digits_value rs = 42)"
proof -
  have v: "valid_date \<lparr>year = 2025, month = 7, day = 9\<rparr>" by (simp add: valid_date_def)
  have r: "(42::nat) < 10000" by simp
  have e: "generate_order_number \<lparr>year = 2025, month = 7, day = 9\<rparr> 42 = ''ORD-20250709-0042''"
    by code_simp
  from generate_order_number_format [OF v r] v r e show ?thesis by simp
qed

subsection \<open>Image URLs\<close>

lemma like_percent_append: "like ps t \<Longrightarrow> like (CHR ''%'' # ps) (pre @ t)"
proof (induction pre)
  case Nil
  then show ?case by (cases t) simp_all
next
  case (Cons c pre)
  then show ?case by simp
qed

lemma like_percent_split: "like (CHR ''%'' # ps) s \<Longrightarrow> \<exists>pre t. s = pre @ t \<and> like ps t"
proof (induction s)
  case Nil
  then have "like ps []" by simp
  then show ?case by blast
next
  case (Cons c s)
  from Cons.prems have "like ps (c # s) \<or> like (CHR ''%'' # ps) s" by simp
  then show ?case
  proof
    assume "like ps (c # s)"
    then have "c # s = [] @ (c # s) \<and> like ps (c # s)" by simp
    then show ?thesis by blast
  next
    assume "like (CHR ''%'' # ps) s"
    with Cons.IH obtain pre t where "s = pre @ t" "like ps t" by blast
    then have "c # s = (c # pre) @ t \<and> like ps t" by simp
    then show ?thesis by blast
  qed
qed

lemma like_literal:
  "CHR ''%'' \<notin> set ps \<Longrightarrow> CHR ''_'' \<notin> set ps \<Longrightarrow> like ps s = (s = ps)"
proof (induction ps arbitrary: s)
  case Nil
  then show ?case by (cases s) simp_all
next
  case (Cons p ps)
  then show ?case by (cases s) auto
qed

lemma like_underscore: "like (CHR ''_'' # ps) s = (\<exists>c t. s = c # t \<and> like ps t)"
  by (cases s) simp_all

lemma like_sized_suffix:
  assumes "CHR ''%'' \<notin> set lit" "CHR ''_'' \<notin> set lit"
  shows "like (CHR ''%'' # CHR ''_'' # lit) s = (\<exists>pre c. s = pre @ c # lit)"
proof
  assume "like (CHR ''%'' # CHR ''_'' # lit) s"
  then obtain pre t where s: "s = pre @ t" and "like (CHR ''_'' # lit) t"
    using like_percent_split by blast
  then obtain c t' where "t = c # t'" "like lit t'" by (auto simp: like_underscore)
  with assms s show "\<exists>pre c. s = pre @ c # lit" by (auto simp: like_literal)
next
  assume "\<exists>pre c. s = pre @ c # lit"
  then obtain pre c where s: "s = pre @ c # lit" by blast
  have "like lit lit" using assms by (simp add: like_literal)
  then have "like (CHR ''_'' # lit) (c # lit)" by simp
  then show "like (CHR ''%'' # CHR ''_'' # lit) s"
    unfolding s by (rule like_percent_append)
qed

lemma like_webp: "like ''%.webp'' s = suffix ''.webp'' s"
proof
  assume "like ''%.webp'' s"
  then obtain pre t where "s = pre @ t" "like ''.webp'' t" using like_percent_split by blast
  moreover have "like ''.webp'' t = (t = ''.webp'')" by (rule like_literal) simp_all
  ultimately show "suffix ''.webp'' s" by (simp add: suffix_def)
next
  assume "suffix ''.webp'' s"
  then obtain pre where s: "s = pre @ ''.webp''" by (auto simp: suffix_def)
  have "like ''.webp'' ''.webp''" by simp
  then show "like ''%.webp'' s" unfolding s by (rule like_percent_append)
qed

lemma like_thumb: "like ''%_thumb.webp'' s = (\<exists>pre c. s = pre @ c # ''thumb.webp'')"
  by (rule like_sized_suffix) simp_all

lemma like_small: "like ''%_small.webp'' s = (\<exists>pre c. s = pre @ c # ''small.webp'')"
  by (rule like_sized_suffix) simp_all

lemma like_medium: "like ''%_medium.webp'' s = (\<exists>pre c. s = pre @ c # ''medium.webp'')"
  by (rule like_sized_suffix) simp_all

lemma like_large: "like ''%_large.webp'' s = (\<exists>pre c. s = pre @ c # ''large.webp'')"
  by (rule like_sized_suffix) simp_all

lemma sized_suffix_webp:
  "like ''%_thumb.webp'' u \<or> like ''%_small.webp'' u \<or> like ''%_medium.webp'' u \<or> like ''%_large.webp'' u
   \<Longrightarrow> suffix ''.webp'' u"
  unfolding like_thumb like_small like_medium like_large
  by (auto simp: suffix_def)

lemma webp_no_overlap:
  assumes "take 5 (pre @ ''.webp'') = ''.webp''" and "pre \<noteq> []"
  shows "5 \<le> length pre"
proof (rule ccontr)
  assume "\<not> 5 \<le> length pre"
  moreover have "0 < length pre" using assms(2) by simp
  ultimately have "length pre = 1 \<or> length pre = 2 \<or> length pre = 3 \<or> length pre = 4"
    by arith
  then consider a where "pre = [a]" | a b where "pre = [a, b]"
    | a b c where "pre = [a, b, c]" | a b c d where "pre = [a, b, c, d]"
    by (auto simp: length_Suc_conv eval_nat_numeral)
  then show False using assms(1) by cases auto
qed

lemma replace_hit:
  assumes "from \<noteq> []" and "take (length from) (c # s) = from"
  shows "replace (c # s) from to = to @ replace (drop (length from) (c # s)) from to"
  using assms by (subst replace.simps(2)) (simp only: simp_thms if_True)

lemma replace_miss:
  assumes "take (length from) (c # s) \<noteq> from"
  shows "replace (c # s) from to = c # replace s from to"
  using assms by (subst replace.simps(2)) (simp only: simp_thms if_False)

lemma replace_webp_suffix:
  "suffix ''.webp'' u \<Longrightarrow> suffix to (replace u ''.webp'' to)"
proof (induction u rule: length_induct)
  case (1 u)
  from "1.prems" obtain pre where u: "u = pre @ ''.webp''" by (auto simp: suffix_def)
  then have "u \<noteq> []" by simp
  then obtain c s where cs: "u = c # s" by (cases u) simp_all
  have len: "length ''.webp'' = 5" and ne: "''.webp'' \<noteq> []" by simp_all
  have IH: "suffix to (replace v ''.webp'' to)" if "length v < length u" "suffix ''.webp'' v" for v
    using "1.IH" that by blast
  show ?case
  proof (cases "take 5 u = ''.webp''")
    case True
    then have "take (length ''.webp'') (c # s) = ''.webp''" by (simp only: len cs)
    from replace_hit [OF ne this, of to]
    have unf: "replace u ''.webp'' to = to @ replace (drop 5 u) ''.webp'' to"
      by (simp only: len cs)
    show ?thesis
    proof (cases "pre = []")
      case True
      then have "drop 5 u = []" unfolding u by simp
      then show ?thesis unfolding unf by (simp add: suffix_def)
    next
      case False
      from True have "take 5 (pre @ ''.webp'') = ''.webp''" unfolding u .
      then have "5 \<le> length pre" using False by (rule webp_no_overlap)
      then have "drop 5 u = drop 5 pre @ ''.webp''" unfolding u by simp
      then have "suffix ''.webp'' (drop 5 u)" by (simp add: suffix_def)
      moreover have "length (drop 5 u) < length u" unfolding cs by simp
      ultimately have "suffix to (replace (drop 5 u) ''.webp'' to)" by (rule IH [rotated])
      then show ?thesis unfolding unf by (simp add: suffix_append)
    qed
  next
    case False
    then have "take (length ''.webp'') (c # s) \<noteq> ''.webp''" by (simp only: len cs simp_thms)
    from replace_miss [OF this, of to]
    have unf: "replace u ''.webp'' to = c # replace s ''.webp'' to"
      by (simp only: cs)
    have "pre \<noteq> []"
    proof
      assume "pre = []"
      then have "take 5 u = ''.webp''" unfolding u by simp
      with False show False by simp
    qed
    then obtain d pre' where "pre = d # pre'" by (cases pre) simp_all
    then have "c # s = d # pre' @ ''.webp''" using u cs by simp
    then have "s = pre' @ ''.webp''" by simp
    then have "suffix ''.webp'' s" by (simp add: suffix_def)
    moreover have "length s < length u" unfolding cs by simp
    ultimately have "suffix to (replace s ''.webp'' to)" by (rule IH [rotated])
    then show ?thesis unfolding unf by (simp add: suffix_Cons)
  qed
qed

lemma replace_webp_sized:
  assumes "suffix ''.webp'' u" and "sz \<in> {''thumb'', ''small'', ''medium'', ''large''}"
  shows "like ''%_thumb.webp'' (replace u ''.webp'' (''_'' @ sz @ ''.webp''))
       \<or> like ''%_small.webp'' (replace u ''.webp'' (''_'' @ sz @ ''.webp''))
       \<or> like ''%_medium.webp'' (replace u ''.webp'' (''_'' @ sz @ ''.webp''))
       \<or> like ''%_large.webp'' (replace u ''.webp'' (''_'' @ sz @ ''.webp''))"
proof -
  let ?r = "replace u ''.webp'' (''_'' @ sz @ ''.webp'')"
  from assms(1) have "suffix (''_'' @ sz @ ''.webp'') ?r" by (rule replace_webp_suffix)
  then obtain pre where r: "?r = pre @ CHR ''_'' # sz @ ''.webp''" by (auto simp: suffix_def)
  from assms(2) consider "sz = ''thumb''" | "sz = ''small''" | "sz = ''medium''" | "sz = ''large''"
    by auto
  then show ?thesis
  proof cases
    case 1 with r have "\<exists>p c. ?r = p @ c # ''thumb.webp''" by auto
    then show ?thesis by (simp only: like_thumb simp_thms)
  next
    case 2 with r have "\<exists>p c. ?r = p @ c # ''small.webp''" by auto
    then show ?thesis by (simp only: like_small simp_thms)
  next
    case 3 with r have "\<exists>p c. ?r = p @ c # ''medium.webp''" by auto
    then show ?thesis by (simp only: like_medium simp_thms)
  next
    case 4 with r have "\<exists>p c. ?r = p @ c # ''large.webp''" by auto
    then show ?thesis by (simp only: like_large simp_thms)
  qed
qed

text \<open>
  C9. For the four recognised sizes, applying \<open>get_optimized_image_url\<close> to its own result
  with the same size changes nothing; and a URL that does not end in \<^verbatim>\<open>.webp\<close> is returned
  as it is, whatever the size.
\<close>

theorem get_optimized_image_url_idempotent:
  "(sz \<in> {''thumb'', ''small'', ''medium'', ''large''} \<longrightarrow>
      get_optimized_image_url (get_optimized_image_url u sz) sz = get_optimized_image_url u sz)
   \<and> (\<not> suffix ''.webp'' u \<longrightarrow> get_optimized_image_url u sz' = u)"
proof (intro conjI impI)
  assume sz: "sz \<in> {''thumb'', ''small'', ''medium'', ''large''}"
  let ?sized = "\<lambda>v. like ''%_thumb.webp'' v \<or> like ''%_small.webp'' v
         \<or> like ''%_medium.webp'' v \<or> like ''%_large.webp'' v"
  show "get_optimized_image_url (get_optimized_image_url u sz) sz = get_optimized_image_url u sz"
  proof (cases "?sized u")
    case True
    then have "get_optimized_image_url u sz = u" by (simp add: get_optimized_image_url_def)
    then show ?thesis by simp
  next
    case False
    show ?thesis
    proof (cases "like ''%.webp'' u")
      case True
      let ?r = "replace u ''.webp'' (''_'' @ sz @ ''.webp'')"
      from True False have r: "get_optimized_image_url u sz = ?r"
        by (simp add: get_optimized_image_url_def)
      from True have "suffix ''.webp'' u" by (simp add: like_webp)
      then have "?sized ?r" using sz by (rule replace_webp_sized)
      then have "get_optimized_image_url ?r sz = ?r"
        unfolding get_optimized_image_url_def by (simp only: if_True)
      with r show ?thesis by simp
    next
      case no: False
      with False have "get_optimized_image_url u sz = u" by (simp add: get_optimized_image_url_def)
      then show ?thesis by simp
    qed
  qed
next
  assume n: "\<not> suffix ''.webp'' u"
  then have "\<not> like ''%.webp'' u" by (simp add: like_webp)
  moreover have "\<not> (like ''%_thumb.webp'' u \<or> like ''%_small.webp'' u
         \<or> like ''%_medium.webp'' u \<or> like ''%_large.webp'' u)"
    using n sized_suffix_webp by blast
  ultimately show "get_optimized_image_url u sz' = u"
    unfolding get_optimized_image_url_def by (simp only: if_False)
qed

theorem get_optimized_image_url_idempotent_witness:
  "''thumb'' \<in> {''thumb'', ''small'', ''medium'', ''large''}
   \<and> get_optimized_image_url ''img/photo.webp'' ''thumb'' = ''img/photo_thumb.webp''
   \<and> get_optimized_image_url ''img/photo_thumb.webp'' ''thumb'' = ''img/photo_thumb.webp''
   \<and> \<not> suffix ''.webp'' ''img/photo.png''
   \<and> get_optimized_image_url ''img/photo.png'' ''thumb'' = ''img/photo.png''"
proof -
  have a: "''thumb'' \<in> {''thumb'', ''small'', ''medium'', ''large''}" by simp
  have b: "get_optimized_image_url ''img/photo.webp'' ''thumb'' = ''img/photo_thumb.webp''"
    by code_simp
  have c: "\<not> suffix ''.webp'' ''img/photo.png''" by (simp add: suffix_def)
  from get_optimized_image_url_idempotent [of "''thumb''" "''img/photo.webp''" "''thumb''"] a b
  have d: "get_optimized_image_url ''img/photo_thumb.webp'' ''thumb'' = ''img/photo_thumb.webp''"
    by simp
  from get_optimized_image_url_idempotent [of "''thumb''" "''img/photo.png''" "''thumb''"] c
  have e: "get_optimized_image_url ''img/photo.png'' ''thumb'' = ''img/photo.png''"
    by blast
  from a b c d e show ?thesis by blast
qed

subsection \<open>Row-level policies\<close>

lemmas rls_defs =
  rls_using_def rls_with_check_def applies_def using_qual_def check_qual_def


lemma listings_with_check:
  "rls_with_check listings_policies c uid db l =
     (case c of SELECT \<Rightarrow> l_status l \<in> {Some ''active'', Some ''sold'', Some ''reserved''}
      | _ \<Rightarrow> uid = Some (l_seller_id l))"
  by (cases c) (simp_all add: rls_defs listings_policies_def)

lemma orders_using_update:
  "rls_using orders_policies UPDATE uid db r =
     (uid = Some (o_buyer_id r) \<and> o_status r \<in> {pending_payment, payment_processing}
      \<or> uid = Some (o_seller_id r))"
  by (simp add: rls_defs orders_policies_def)

lemma orders_with_check_update:
  "rls_with_check orders_policies UPDATE uid db r =
     (uid = Some (o_buyer_id r) \<and> o_status r \<in> {pending_payment, payment_processing}
      \<or> uid = Some (o_seller_id r))"
  by (simp add: rls_defs orders_policies_def)

lemma orders_update_policies_imply_select:
  "rls_using orders_policies UPDATE uid db r \<Longrightarrow> rls_using orders_policies SELECT uid db r"
  "rls_with_check orders_policies UPDATE uid db r \<Longrightarrow> rls_using orders_policies SELECT uid db r"
  by (auto simp: rls_defs orders_policies_def)



text \<open>
  C2 (as amended). An \<^verbatim>\<open>UPDATE\<close> that turns an order that was not cancelled into a cancelled
  one takes effect only when the requester is the order's seller, or is its buyer while the
  status is \<^verbatim>\<open>pending_payment\<close> or \<^verbatim>\<open>payment_processing\<close>; and for a requester who is not the
  seller, an \<^verbatim>\<open>UPDATE\<close> of a shipped order changes nothing.
\<close>

theorem orders_cancel_only_by_seller_or_pending_buyer:
  "(update_order_row uid db set_cols old = Inr new \<and> o_status new = cancelled \<and> o_status old \<noteq> cancelled
      \<longrightarrow> uid = Some (o_seller_id old)
          \<or> uid = Some (o_buyer_id old) \<and> o_status old \<in> {pending_payment, payment_processing})
   \<and> (o_status old = shipped \<and> uid \<noteq> Some (o_seller_id old)
      \<longrightarrow> update_order_row uid db set_cols old = Inr old)"
  by (auto simp: update_order_row_def orders_using_update orders_with_check_update split: if_splits)

theorem orders_cancel_only_by_seller_or_pending_buyer_witness:
  "update_order_row (Some 2)
       \<lparr>auth_users = [], profiles = [], profile_setup_progress = [], shopping_carts = [],
         cart_items = [], orders = [], user_follows = [], user_stats_summary = []\<rparr>
       (\<lambda>r. r\<lparr>o_status := cancelled\<rparr>)
       \<lparr>o_id = 5, o_buyer_id = 1, o_seller_id = 2, o_status = paid\<rparr>
     = Inr \<lparr>o_id = 5, o_buyer_id = 1, o_seller_id = 2, o_status = cancelled\<rparr>
   \<and> (Some 2 = Some (o_seller_id \<lparr>o_id = 5, o_buyer_id = 1, o_seller_id = 2, o_status = paid\<rparr>)
      \<or> Some 2 = Some (o_buyer_id \<lparr>o_id = 5, o_buyer_id = 1, o_seller_id = 2, o_status = paid\<rparr>)
        \<and> o_status \<lparr>o_id = 5, o_buyer_id = 1, o_seller_id = 2, o_status = paid\<rparr>
            \<in> {pending_payment, payment_processing})
   \<and> Some 1 \<noteq> Some (o_seller_id \<lparr>o_id = 5, o_buyer_id = 1, o_seller_id = 2, o_status = shipped\<rparr>)
   \<and> update_order_row (Some 1)
       \<lparr>auth_users = [], profiles = [], profile_setup_progress = [], shopping_carts = [],
         cart_items = [], orders = [], user_follows = [], user_stats_summary = []\<rparr>
       (\<lambda>r. r\<lparr>o_status := cancelled\<rparr>)
       \<lparr>o_id = 5, o_buyer_id = 1, o_seller_id = 2, o_status = shipped\<rparr>
     = Inr \<lparr>o_id = 5, o_buyer_id = 1, o_seller_id = 2, o_status = shipped\<rparr>"
proof -
  let ?db = "\<lparr>auth_users = [], profiles = [], profile_setup_progress = [], shopping_carts = [],
         cart_items = [], orders = [], user_follows = [], user_stats_summary = []\<rparr>"
  let ?paid = "\<lparr>o_id = 5, o_buyer_id = 1, o_seller_id = 2, o_status = paid\<rparr>"
  let ?done = "\<lparr>o_id = 5, o_buyer_id = 1, o_seller_id = 2, o_status = cancelled\<rparr>"
  let ?shipped = "\<lparr>o_id = 5, o_buyer_id = 1, o_seller_id = 2, o_status = shipped\<rparr>"
  let ?set = "\<lambda>r::order. r\<lparr>o_status := cancelled\<rparr>"
  have a: "update_order_row (Some 2) ?db ?set ?paid = Inr ?done"
    by (simp add: update_order_row_def orders_using_update orders_with_check_update)
  have a': "update_order_row (Some 2) ?db ?set ?paid = Inr ?done
      \<and> o_status ?done = cancelled \<and> o_status ?paid \<noteq> cancelled"
    using a by simp
  have b: "o_status ?shipped = shipped \<and> Some 1 \<noteq> Some (o_seller_id ?shipped)" by simp
  have c: "Some 2 = Some (o_seller_id ?paid)
      \<or> Some 2 = Some (o_buyer_id ?paid) \<and> o_status ?paid \<in> {pending_payment, payment_processing}"
    by (rule orders_cancel_only_by_seller_or_pending_buyer
        [of "Some 2" ?db ?set ?paid ?done, THEN conjunct1, THEN mp, OF a'])
  have d: "update_order_row (Some 1) ?db ?set ?shipped = Inr ?shipped"
    by (rule orders_cancel_only_by_seller_or_pending_buyer
        [of "Some 1" ?db ?set ?shipped, THEN conjunct2, THEN mp, OF b])
  from a c b d show ?thesis by blast
qed

text \<open>
  C2 as stated fails: the seller (principal 2), who is not the buyer, cancels a shipped
  order, and the order is changed.
\<close>

theorem orders_cancel_counterexample:
  "update_order_row (Some 2)
       \<lparr>auth_users = [], profiles = [], profile_setup_progress = [], shopping_carts = [],
         cart_items = [], orders = [\<lparr>o_id = 5, o_buyer_id = 1, o_seller_id = 2, o_status = shipped\<rparr>],
         user_follows = [], user_stats_summary = []\<rparr>
       (\<lambda>r. r\<lparr>o_status := cancelled\<rparr>)
       \<lparr>o_id = 5, o_buyer_id = 1, o_seller_id = 2, o_status = shipped\<rparr>
     = Inr \<lparr>o_id = 5, o_buyer_id = 1, o_seller_id = 2, o_status = cancelled\<rparr>
   \<and> Some 2 \<noteq> Some (o_buyer_id \<lparr>o_id = 5, o_buyer_id = 1, o_seller_id = 2, o_status = shipped\<rparr>)
   \<and> shipped \<notin> {pending_payment, payment_processing}"
  by (simp add: update_order_row_def orders_using_update orders_with_check_update)

text \<open>
  C7 (as amended). An administrator passes the policies that name the admin role, whoever
  owns the row: \<^verbatim>\<open>SELECT\<close> and \<^verbatim>\<open>UPDATE\<close> on \<^verbatim>\<open>brand_verification_requests\<close>, \<^verbatim>\<open>SELECT\<close> and
  \<^verbatim>\<open>INSERT\<close> on \<^verbatim>\<open>admin_approvals\<close>, \<^verbatim>\<open>SELECT\<close> on \<^verbatim>\<open>admin_audit_log\<close>. The
  service-role-only tables refuse every command of every principal. On \<^verbatim>\<open>profiles\<close>,
  \<^verbatim>\<open>listings\<close>, \<^verbatim>\<open>shopping_carts\<close>, \<^verbatim>\<open>orders\<close>, \<^verbatim>\<open>profile_setup_progress\<close>,
  \<^verbatim>\<open>social_media_accounts\<close>, \<^verbatim>\<open>seller_payouts\<close> and \<^verbatim>\<open>shipping_events\<close> the decision does not
  read the \<^verbatim>\<open>profiles\<close> table, hence no role: an administrator is treated there as any other
  principal. (Nothing is said here of \<^verbatim>\<open>UPDATE\<close> on \<^verbatim>\<open>refund_requests\<close>: its \<^verbatim>\<open>UPDATE\<close> policy
  names the admin role and its \<^verbatim>\<open>SELECT\<close> policy does not.)
\<close>

theorem admin_rights_by_table:
  "(is_admin uid db \<longrightarrow>
       select_allowed brand_verification_requests_policies uid db b
     \<and> update_allowed brand_verification_requests_policies uid db b b'
     \<and> select_allowed admin_approvals_policies uid db a
     \<and> insert_allowed admin_approvals_policies uid db a
     \<and> select_allowed admin_audit_log_policies uid db g)
   \<and> \<not> rls_using service_role_only_policies c uid db m
   \<and> \<not> rls_with_check service_role_only_policies c uid db m
   \<and> rls_using profiles_policies c uid (db\<lparr>profiles := ps\<rparr>) r1 = rls_using profiles_policies c uid db r1
   \<and> rls_with_check profiles_policies c uid (db\<lparr>profiles := ps\<rparr>) r1 = rls_with_check profiles_policies c uid db r1
   \<and> rls_using listings_policies c uid (db\<lparr>profiles := ps\<rparr>) r2 = rls_using listings_policies c uid db r2
   \<and> rls_with_check listings_policies c uid (db\<lparr>profiles := ps\<rparr>) r2 = rls_with_check listings_policies c uid db r2
   \<and> rls_using shopping_carts_policies c uid (db\<lparr>profiles := ps\<rparr>) r3 = rls_using shopping_carts_policies c uid db r3
   \<and> rls_with_check shopping_carts_policies c uid (db\<lparr>profiles := ps\<rparr>) r3 = rls_with_check shopping_carts_policies c uid db r3
   \<and> rls_using orders_policies c uid (db\<lparr>profiles := ps\<rparr>) r4 = rls_using orders_policies c uid db r4
   \<and> rls_with_check orders_policies c uid (db\<lparr>profiles := ps\<rparr>) r4 = rls_with_check orders_policies c uid db r4
   \<and> rls_using profile_setup_progress_policies c uid (db\<lparr>profiles := ps\<rparr>) r5
        = rls_using profile_setup_progress_policies c uid db r5
   \<and> rls_with_check profile_setup_progress_policies c uid (db\<lparr>profiles := ps\<rparr>) r5
        = rls_with_check profile_setup_progress_policies c uid db r5
   \<and> rls_using social_media_accounts_policies c uid (db\<lparr>profiles := ps\<rparr>) r6
        = rls_using social_media_accounts_policies c uid db r6
   \<and> rls_with_check social_media_accounts_policies c uid (db\<lparr>profiles := ps\<rparr>) r6
        = rls_with_check social_media_accounts_policies c uid db r6
   \<and> rls_using seller_payouts_policies c uid (db\<lparr>profiles := ps\<rparr>) r7 = rls_using seller_payouts_policies c uid db r7
   \<and> rls_with_check seller_payouts_policies c uid (db\<lparr>profiles := ps\<rparr>) r7
        = rls_with_check seller_payouts_policies c uid db r7
   \<and> rls_using shipping_events_policies c uid (db\<lparr>profiles := ps\<rparr>) r8 = rls_using shipping_events_policies c uid db r8
   \<and> rls_with_check shipping_events_policies c uid (db\<lparr>profiles := ps\<rparr>) r8
        = rls_with_check shipping_events_policies c uid db r8"
proof -
  have adm: "is_admin uid db \<longrightarrow>
       select_allowed brand_verification_requests_policies uid db b
     \<and> update_allowed brand_verification_requests_policies uid db b b'
     \<and> select_allowed admin_approvals_policies uid db a
     \<and> insert_allowed admin_approvals_policies uid db a
     \<and> select_allowed admin_audit_log_policies uid db g"
    by (simp add: select_allowed_def insert_allowed_def update_allowed_def rls_defs
        brand_verification_requests_policies_def admin_approvals_policies_def
        admin_audit_log_policies_def)
  have srv: "\<not> rls_using service_role_only_policies c uid db m"
    "\<not> rls_with_check service_role_only_policies c uid db m"
    by (simp_all add: rls_defs service_role_only_policies_def)
  have blind:
    "rls_using profiles_policies c uid (db\<lparr>profiles := ps\<rparr>) r1 = rls_using profiles_policies c uid db r1"
    "rls_with_check profiles_policies c uid (db\<lparr>profiles := ps\<rparr>) r1 = rls_with_check profiles_policies c uid db r1"
    "rls_using listings_policies c uid (db\<lparr>profiles := ps\<rparr>) r2 = rls_using listings_policies c uid db r2"
    "rls_with_check listings_policies c uid (db\<lparr>profiles := ps\<rparr>) r2 = rls_with_check listings_policies c uid db r2"
    "rls_using shopping_carts_policies c uid (db\<lparr>profiles := ps\<rparr>) r3 = rls_using shopping_carts_policies c uid db r3"
    "rls_with_check shopping_carts_policies c uid (db\<lparr>profiles := ps\<rparr>) r3 = rls_with_check shopping_carts_policies c uid db r3"
    "rls_using orders_policies c uid (db\<lparr>profiles := ps\<rparr>) r4 = rls_using orders_policies c uid db r4"
    "rls_with_check orders_policies c uid (db\<lparr>profiles := ps\<rparr>) r4 = rls_with_check orders_policies c uid db r4"
    by (simp_all add: rls_using_def rls_with_check_def using_qual_def check_qual_def
        profiles_policies_def listings_policies_def shopping_carts_policies_def orders_policies_def)
  have blind':
    "rls_using profile_setup_progress_policies c uid (db\<lparr>profiles := ps\<rparr>) r5
        = rls_using profile_setup_progress_policies c uid db r5"
    "rls_with_check profile_setup_progress_policies c uid (db\<lparr>profiles := ps\<rparr>) r5
        = rls_with_check profile_setup_progress_policies c uid db r5"
    "rls_using social_media_accounts_policies c uid (db\<lparr>profiles := ps\<rparr>) r6
        = rls_using social_media_accounts_policies c uid db r6"
    "rls_with_check social_media_accounts_policies c uid (db\<lparr>profiles := ps\<rparr>) r6
        = rls_with_check social_media_accounts_policies c uid db r6"
    "rls_using seller_payouts_policies c uid (db\<lparr>profiles := ps\<rparr>) r7 = rls_using seller_payouts_policies c uid db r7"
    "rls_with_check seller_payouts_policies c uid (db\<lparr>profiles := ps\<rparr>) r7
        = rls_with_check seller_payouts_policies c uid db r7"
    "rls_using shipping_events_policies c uid (db\<lparr>profiles := ps\<rparr>) r8 = rls_using shipping_events_policies c uid db r8"
    "rls_with_check shipping_events_policies c uid (db\<lparr>profiles := ps\<rparr>) r8
        = rls_with_check shipping_events_policies c uid db r8"
    by (simp_all add: rls_using_def rls_with_check_def using_qual_def check_qual_def
        profile_setup_progress_policies_def social_media_accounts_policies_def
        seller_payouts_policies_def shipping_events_policies_def)
  from adm srv blind blind' show ?thesis by (intro conjI)
qed

theorem admin_rights_by_table_witness:
  "is_admin (Some 9)
       \<lparr>auth_users = [], profiles = [\<lparr>p_id = 9, p_email = ''root@driplo.test'', p_username = ''root'',
           p_role = Some admin, p_setup_completed = Some True, p_setup_completed_at = None\<rparr>],
         profile_setup_progress = [], shopping_carts = [], cart_items = [], orders = [],
         user_follows = [], user_stats_summary = []\<rparr>
   \<and> select_allowed brand_verification_requests_policies (Some 9)
       \<lparr>auth_users = [], profiles = [\<lparr>p_id = 9, p_email = ''root@driplo.test'', p_username = ''root'',
           p_role = Some admin, p_setup_completed = Some True, p_setup_completed_at = None\<rparr>],
         profile_setup_progress = [], shopping_carts = [], cart_items = [], orders = [],
         user_follows = [], user_stats_summary = []\<rparr>
       \<lparr>bvr_user_id = 1, bvr_verification_status = Some ''approved''\<rparr>
   \<and> update_allowed brand_verification_requests_policies (Some 9)
       \<lparr>auth_users = [], profiles = [\<lparr>p_id = 9, p_email = ''root@driplo.test'', p_username = ''root'',
           p_role = Some admin, p_setup_completed = Some True, p_setup_completed_at = None\<rparr>],
         profile_setup_progress = [], shopping_carts = [], cart_items = [], orders = [],
         user_follows = [], user_stats_summary = []\<rparr>
       \<lparr>bvr_user_id = 1, bvr_verification_status = Some ''pending''\<rparr>
       \<lparr>bvr_user_id = 1, bvr_verification_status = Some ''approved''\<rparr>"
proof -
  let ?db = "\<lparr>auth_users = [], profiles = [\<lparr>p_id = 9, p_email = ''root@driplo.test'', p_username = ''root'',
           p_role = Some admin, p_setup_completed = Some True, p_setup_completed_at = None\<rparr>],
         profile_setup_progress = [], shopping_carts = [], cart_items = [], orders = [],
         user_follows = [], user_stats_summary = []\<rparr>"
  have adm: "is_admin (Some 9) ?db" by (simp add: is_admin_def)
  note t = admin_rights_by_table [of "Some 9" ?db "\<lparr>bvr_user_id = 1, bvr_verification_status = Some ''pending''\<rparr>"
      "\<lparr>bvr_user_id = 1, bvr_verification_status = Some ''approved''\<rparr>" "()" "()",
      THEN conjunct1, THEN mp, OF adm]
  have s: "select_allowed brand_verification_requests_policies (Some 9) ?db
      \<lparr>bvr_user_id = 1, bvr_verification_status = Some ''approved''\<rparr>"
    using adm by (simp add: select_allowed_def rls_defs brand_verification_requests_policies_def)
  from adm t s show ?thesis by blast
qed

text \<open>
  C7 as stated fails: an administrator (principal 9) may neither update nor delete the
  draft listing of seller 1, and may not read an order of which they are neither buyer nor
  seller.
\<close>

theorem admin_rights_counterexample:
  "is_admin (Some 9)
       \<lparr>auth_users = [], profiles = [\<lparr>p_id = 9, p_email = ''root@driplo.test'', p_username = ''root'',
           p_role = Some admin, p_setup_completed = Some True, p_setup_completed_at = None\<rparr>],
         profile_setup_progress = [], shopping_carts = [], cart_items = [],
         orders = [\<lparr>o_id = 5, o_buyer_id = 1, o_seller_id = 2, o_status = paid\<rparr>],
         user_follows = [], user_stats_summary = []\<rparr>
   \<and> \<not> update_allowed listings_policies (Some 9)
       \<lparr>auth_users = [], profiles = [\<lparr>p_id = 9, p_email = ''root@driplo.test'', p_username = ''root'',
           p_role = Some admin, p_setup_completed = Some True, p_setup_completed_at = None\<rparr>],
         profile_setup_progress = [], shopping_carts = [], cart_items = [],
         orders = [\<lparr>o_id = 5, o_buyer_id = 1, o_seller_id = 2, o_status = paid\<rparr>],
         user_follows = [], user_stats_summary = []\<rparr>
       \<lparr>l_id = 7, l_seller_id = 1, l_status = Some ''draft''\<rparr>
       \<lparr>l_id = 7, l_seller_id = 1, l_status = Some ''active''\<rparr>
   \<and> \<not> delete_allowed listings_policies (Some 9)
       \<lparr>auth_users = [], profiles = [\<lparr>p_id = 9, p_email = ''root@driplo.test'', p_username = ''root'',
           p_role = Some admin, p_setup_completed = Some True, p_setup_completed_at = None\<rparr>],
         profile_setup_progress = [], shopping_carts = [], cart_items = [],
         orders = [\<lparr>o_id = 5, o_buyer_id = 1, o_seller_id = 2, o_status = paid\<rparr>],
         user_follows = [], user_stats_summary = []\<rparr>
       \<lparr>l_id = 7, l_seller_id = 1, l_status = Some ''draft''\<rparr>
   \<and> \<not> select_allowed orders_policies (Some 9)
       \<lparr>auth_users = [], profiles = [\<lparr>p_id = 9, p_email = ''root@driplo.test'', p_username = ''root'',
           p_role = Some admin, p_setup_completed = Some True, p_setup_completed_at = None\<rparr>],
         profile_setup_progress = [], shopping_carts = [], cart_items = [],
         orders = [\<lparr>o_id = 5, o_buyer_id = 1, o_seller_id = 2, o_status = paid\<rparr>],
         user_follows = [], user_stats_summary = []\<rparr>
       \<lparr>o_id = 5, o_buyer_id = 1, o_seller_id = 2, o_status = paid\<rparr>"
  by (simp add: is_admin_def select_allowed_def update_allowed_def delete_allowed_def rls_defs
      listings_policies_def orders_policies_def)

subsection \<open>No self-follow\<close>

lemma store_user_follows_Inr:
  assumes "store_user_follows written rows db = Inr db'"
  shows "user_follows db' = rows \<and> list_all (\<lambda>r. f_follower_id r \<noteq> f_following_id r) written"
  using assms
  by (auto simp: store_user_follows_def list_all_iff list_ex_iff split: if_splits)

text \<open>
  C10. In every state that inserts, updates and deletes reach from the empty table, every row
  of \<^verbatim>\<open>user_follows\<close> has a follower different from the followed user.
\<close>

theorem user_follows_no_self_follow:
  "follows_reachable db \<Longrightarrow> list_all (\<lambda>r. f_follower_id r \<noteq> f_following_id r) (user_follows db)"
proof (induction rule: follows_reachable.induct)
  case (created db)
  then show ?case by simp
next
  case (inserted db r db')
  from inserted.hyps(2) have "user_follows db' = user_follows db @ [r]"
    and "list_all (\<lambda>r. f_follower_id r \<noteq> f_following_id r) [r]"
    using store_user_follows_Inr unfolding insert_user_follow_def by blast+
  with inserted.IH show ?case by simp
next
  case (updated db wh set_cols db')
  from updated.hyps(2)
  have rows: "user_follows db' = map (\<lambda>r. if wh r then set_cols r else r) (user_follows db)"
    and wr: "list_all (\<lambda>r. f_follower_id r \<noteq> f_following_id r) (map set_cols (filter wh (user_follows db)))"
    using store_user_follows_Inr unfolding update_user_follows_def by blast+
  from wr updated.IH show ?case unfolding rows by (auto simp: list_all_iff)
next
  case (deleted db wh)
  then show ?case by (auto simp: delete_user_follows_def list_all_iff)
next
  case (elsewhere db db')
  then show ?case by simp
qed

theorem user_follows_no_self_follow_witness:
  "follows_reachable
     \<lparr>auth_users = [], profiles = [\<lparr>p_id = 1, p_email = ''a@driplo.test'', p_username = ''a'',
          p_role = Some user, p_setup_completed = Some False, p_setup_completed_at = None\<rparr>,
        \<lparr>p_id = 2, p_email = ''b@driplo.test'', p_username = ''b'',
          p_role = Some user, p_setup_completed = Some False, p_setup_completed_at = None\<rparr>],
      profile_setup_progress = [], shopping_carts = [], cart_items = [], orders = [],
      user_follows = [\<lparr>f_id = 10, f_follower_id = 1, f_following_id = 2\<rparr>], user_stats_summary = []\<rparr>
   \<and> list_all (\<lambda>r. f_follower_id r \<noteq> f_following_id r)
       [\<lparr>f_id = 10, f_follower_id = 1, f_following_id = 2\<rparr>]
   \<and> insert_user_follow \<lparr>f_id = 11, f_follower_id = 1, f_following_id = 1\<rparr>
       \<lparr>auth_users = [], profiles = [\<lparr>p_id = 1, p_email = ''a@driplo.test'', p_username = ''a'',
          p_role = Some user, p_setup_completed = Some False, p_setup_completed_at = None\<rparr>,
        \<lparr>p_id = 2, p_email = ''b@driplo.test'', p_username = ''b'',
          p_role = Some user, p_setup_completed = Some False, p_setup_completed_at = None\<rparr>],
      profile_setup_progress = [], shopping_carts = [], cart_items = [], orders = [],
      user_follows = [\<lparr>f_id = 10, f_follower_id = 1, f_following_id = 2\<rparr>], user_stats_summary = []\<rparr>
     = Inl check_violation"
proof -
  let ?ps = "[\<lparr>p_id = 1, p_email = ''a@driplo.test'', p_username = ''a'',
          p_role = Some user, p_setup_completed = Some False, p_setup_completed_at = None\<rparr>,
        \<lparr>p_id = 2, p_email = ''b@driplo.test'', p_username = ''b'',
          p_role = Some user, p_setup_completed = Some False, p_setup_completed_at = None\<rparr>]"
  let ?db0 = "\<lparr>auth_users = [], profiles = ?ps,
      profile_setup_progress = [], shopping_carts = [], cart_items = [], orders = [],
      user_follows = [], user_stats_summary = []\<rparr>"
  let ?r = "\<lparr>f_id = 10, f_follower_id = 1, f_following_id = 2\<rparr>"
  let ?db1 = "\<lparr>auth_users = [], profiles = ?ps,
      profile_setup_progress = [], shopping_carts = [], cart_items = [], orders = [],
      user_follows = [?r], user_stats_summary = []\<rparr>"
  have "follows_reachable ?db0" by (rule follows_reachable.created) simp
  moreover have "insert_user_follow ?r ?db0 = Inr ?db1"
    by (simp add: insert_user_follow_def store_user_follows_def user_follows_keys_ok_def
        user_follows_refs_ok_def)
  ultimately have reach: "follows_reachable ?db1" by (rule follows_reachable.inserted)
  from user_follows_no_self_follow [OF reach]
  have inv: "list_all (\<lambda>r. f_follower_id r \<noteq> f_following_id r) [?r]" by simp
  have refused: "insert_user_follow \<lparr>f_id = 11, f_follower_id = 1, f_following_id = 1\<rparr> ?db1
      = Inl check_violation"
    by (simp add: insert_user_follow_def store_user_follows_def)
  from reach inv refused show ?thesis by (intro conjI)
qed

subsection \<open>Shopping carts\<close>

text \<open>
  C8, at the input where it fails: user 1 has a profile and a cart that expired at time 100,
  and calls for their own cart. At time 50 the cart is returned. At time 200 the \<^verbatim>\<open>SELECT\<close>
  finds no cart that has not expired, and the \<^verbatim>\<open>INSERT\<close> meets \<^verbatim>\<open>UNIQUE(user_id)\<close>: the call
  raises and returns no cart id.
\<close>

theorem get_or_create_cart_expired_cart_raises:
  "get_or_create_cart (Some 1) 1 200 8
     \<lparr>auth_users = [\<lparr>u_id = 1, u_email = Some ''a@driplo.test''\<rparr>],
      profiles = [\<lparr>p_id = 1, p_email = ''a@driplo.test'', p_username = ''a'',
          p_role = Some user, p_setup_completed = Some False, p_setup_completed_at = None\<rparr>],
      profile_setup_progress = [],
      shopping_carts = [\<lparr>c_id = 7, c_user_id = 1, c_expires_at = Some 100\<rparr>],
      cart_items = [], orders = [], user_follows = [], user_stats_summary = []\<rparr>
     = Inl unique_violation
   \<and> get_or_create_cart (Some 1) 1 50 8
     \<lparr>auth_users = [\<lparr>u_id = 1, u_email = Some ''a@driplo.test''\<rparr>],
      profiles = [\<lparr>p_id = 1, p_email = ''a@driplo.test'', p_username = ''a'',
          p_role = Some user, p_setup_completed = Some False, p_setup_completed_at = None\<rparr>],
      profile_setup_progress = [],
      shopping_carts = [\<lparr>c_id = 7, c_user_id = 1, c_expires_at = Some 100\<rparr>],
      cart_items = [], orders = [], user_follows = [], user_stats_summary = []\<rparr>
     = Inr (7,
     \<lparr>auth_users = [\<lparr>u_id = 1, u_email = Some ''a@driplo.test''\<rparr>],
      profiles = [\<lparr>p_id = 1, p_email = ''a@driplo.test'', p_username = ''a'',
          p_role = Some user, p_setup_completed = Some False, p_setup_completed_at = None\<rparr>],
      profile_setup_progress = [],
      shopping_carts = [\<lparr>c_id = 7, c_user_id = 1, c_expires_at = Some 100\<rparr>],
      cart_items = [], orders = [], user_follows = [], user_stats_summary = []\<rparr>)"
  by (simp add: get_or_create_cart_def insert_shopping_cart_def new_shopping_cart_def
      select_allowed_def insert_allowed_def rls_using_def rls_with_check_def applies_def
      using_qual_def check_qual_def shopping_carts_policies_def)

subsection \<open>Principal bootstrap\<close>

lemma split_fields_nonempty: "split_fields d s \<noteq> []"
  by (induction s) (auto split: list.splits)

lemma hd_split_fields: "hd (split_fields d s) = takeWhile (\<lambda>c. c \<noteq> d) s"
  by (induction s) (auto split: list.splits simp: split_fields_nonempty)

lemma split_part_first: "split_part s d 1 = takeWhile (\<lambda>c. c \<noteq> d) s"
proof -
  have "1 \<le> length (split_fields d s)"
    using split_fields_nonempty [of d s] by (cases "split_fields d s") simp_all
  then show ?thesis
    using hd_split_fields [of d s] split_fields_nonempty [of d s]
    by (simp add: split_part_def hd_conv_nth)
qed

lemma filter_none: "\<not> list_ex P xs \<Longrightarrow> filter P xs = []"
  by (simp add: list_ex_iff filter_empty_conv)

lemma varchar_no_space:
  assumes "varchar n s = Inr v" and "CHR '' '' \<notin> set s"
  shows "v = s"
proof (cases "length s \<le> n")
  case True
  with assms(1) show ?thesis by (simp add: varchar_def)
next
  case False
  then have ne: "drop n s \<noteq> []" by simp
  from assms(1) False have "list_all (\<lambda>c. c = CHR '' '') (drop n s)"
    by (simp add: varchar_def split: if_splits)
  with ne have "CHR '' '' \<in> set (drop n s)" by (cases "drop n s") simp_all
  then have "CHR '' '' \<in> set s" by (rule in_set_dropD)
  with assms(2) show ?thesis by simp
qed

lemma lower_char_space: "lower_char c = CHR '' '' \<Longrightarrow> c = CHR '' ''"
proof (cases "(65::nat) \<le> of_char c \<and> of_char c \<le> (90::nat)")
  case False
  assume "lower_char c = CHR '' ''"
  with False show ?thesis by (auto simp: lower_char_def split: if_splits)
next
  case True
  assume "lower_char c = CHR '' ''"
  with True have "char_of (of_char c + (32::nat)) = CHR '' ''" by (simp add: lower_char_def)
  then have "(of_char (char_of (of_char c + (32::nat)) :: char) :: nat) = of_char (CHR '' '')" by simp
  then have "(of_char c + 32) mod 256 = (32::nat)" by simp
  with True show ?thesis by simp
qed

lemma lower_no_space: "CHR '' '' \<notin> set s \<Longrightarrow> CHR '' '' \<notin> set (lower s)"
proof
  assume n: "CHR '' '' \<notin> set s" and "CHR '' '' \<in> set (lower s)"
  then obtain c where c: "c \<in> set s" "lower_char c = CHR '' ''" by (auto simp: lower_def)
  from c(2) have "c = CHR '' ''" by (rule lower_char_space)
  with c(1) n show False by simp
qed

lemma printable_ascii_no_space: "printable_ascii s \<Longrightarrow> CHR '' '' \<notin> set s"
  by (auto simp: printable_ascii_def list_all_iff)

lemma insert_profile_Inr:
  assumes "insert_profile r db = Inr db1"
    and "CHR '' '' \<notin> set (p_email r)" and "CHR '' '' \<notin> set (p_username r)"
  shows "db1 = db\<lparr>profiles := profiles db @ [r]\<rparr> \<and> \<not> list_ex (\<lambda>p. p_id p = p_id r) (profiles db)"
proof -
  from assms(1) obtain email where e: "varchar 255 (p_email r) = Inr email"
    by (cases "varchar 255 (p_email r)") (simp_all add: insert_profile_def)
  from assms(1) e obtain username where u: "varchar 30 (p_username r) = Inr username"
    by (cases "varchar 30 (p_username r)") (simp_all add: insert_profile_def)
  from varchar_no_space [OF e assms(2)] varchar_no_space [OF u assms(3)]
  have same: "email = p_email r" "username = p_username r" by simp_all
  from assms(1) show ?thesis
    unfolding insert_profile_def e u same by (simp split: if_splits)
qed

lemma insert_shopping_cart_Inr:
  assumes "insert_shopping_cart r db = Inr db1"
  shows "db1 = db\<lparr>shopping_carts := shopping_carts db @ [r]\<rparr>
     \<and> \<not> list_ex (\<lambda>c. c_id c = c_id r) (shopping_carts db)
     \<and> \<not> list_ex (\<lambda>c. c_user_id c = c_user_id r) (shopping_carts db)"
  using assms by (simp add: insert_shopping_cart_def split: if_splits)

lemma insert_user_stats_summary_Inr:
  assumes "insert_user_stats_summary r db = Inr db1"
  shows "db1 = db\<lparr>user_stats_summary := user_stats_summary db @ [r]\<rparr>
     \<and> \<not> list_ex (\<lambda>s. us_user_id s = us_user_id r) (user_stats_summary db)"
  using assms by (simp add: insert_user_stats_summary_def split: if_splits)

lemma no_items_of_new_cart:
  assumes "cart_items_reference_carts db" and "\<not> list_ex (\<lambda>c. c_id c = cid) (shopping_carts db)"
  shows "filter (\<lambda>i. ci_cart_id i = cid) (cart_items db) = []"
  using assms
  by (auto simp: cart_items_reference_carts_def list_all_iff list_ex_iff filter_empty_conv)

lemma handle_new_user_Inr:
  assumes "handle_new_user NEW cart_id now db = Inr db'"
    and "case u_email NEW of None \<Rightarrow> True | Some e \<Rightarrow> printable_ascii e"
  shows "\<exists>email. u_email NEW = Some email
      \<and> profiles db' = profiles db @ [\<lparr>p_id = u_id NEW, p_email = email,
            p_username = lower (split_part email (CHR ''@'') 1),
            p_role = Some user, p_setup_completed = Some False, p_setup_completed_at = None\<rparr>]
      \<and> \<not> list_ex (\<lambda>p. p_id p = u_id NEW) (profiles db)
      \<and> shopping_carts db' = shopping_carts db @ [new_shopping_cart cart_id (u_id NEW) now]
      \<and> \<not> list_ex (\<lambda>c. c_id c = cart_id) (shopping_carts db)
      \<and> \<not> list_ex (\<lambda>c. c_user_id c = u_id NEW) (shopping_carts db)
      \<and> user_stats_summary db' = user_stats_summary db @ [new_user_stats (u_id NEW)]
      \<and> \<not> list_ex (\<lambda>s. us_user_id s = u_id NEW) (user_stats_summary db)
      \<and> cart_items db' = cart_items db"
proof -
  from assms(1) obtain email where e: "u_email NEW = Some email"
    by (cases "u_email NEW") (simp_all add: handle_new_user_def)
  let ?p = "\<lparr>p_id = u_id NEW, p_email = email,
            p_username = lower (split_part email (CHR ''@'') 1),
            p_role = Some user, p_setup_completed = Some False, p_setup_completed_at = None\<rparr>"
  from assms(1) e obtain db1 where 1: "insert_profile ?p db = Inr db1"
    by (cases "insert_profile ?p db") (simp_all add: handle_new_user_def)
  let ?c = "new_shopping_cart cart_id (u_id NEW) now"
  from assms(1) e 1 obtain db2 where 2: "insert_shopping_cart ?c db1 = Inr db2"
    by (cases "insert_shopping_cart ?c db1") (simp_all add: handle_new_user_def)
  from assms(1) e 1 2 have 3: "insert_user_stats_summary (new_user_stats (u_id NEW)) db2 = Inr db'"
    by (simp add: handle_new_user_def)
  from assms(2) e have sp: "CHR '' '' \<notin> set email" by (simp add: printable_ascii_no_space)
  then have "CHR '' '' \<notin> set (split_part email (CHR ''@'') 1)"
    unfolding split_part_first by (auto dest: set_takeWhileD)
  then have su: "CHR '' '' \<notin> set (lower (split_part email (CHR ''@'') 1))" by (rule lower_no_space)
  have p1: "db1 = db\<lparr>profiles := profiles db @ [?p]\<rparr> \<and> \<not> list_ex (\<lambda>p. p_id p = p_id ?p) (profiles db)"
    using 1 sp su by (intro insert_profile_Inr) simp_all
  from p1 insert_shopping_cart_Inr [OF 2] insert_user_stats_summary_Inr [OF 3] e
  show ?thesis by (simp add: new_shopping_cart_def new_user_stats_def)
qed

text \<open>
  C3. Creating a principal whose email is written in visible ASCII characters either
  succeeds, and then the database holds exactly one profile for it (its username the
  lower-cased part of the email before the first \<^verbatim>\<open>@\<close>), exactly one shopping cart, which
  has no item, and exactly one stats row, whose counters and sums are 0; or it fails, and
  then the database is the one before the statement: no row of the three persists.
\<close>

theorem new_principal_bootstrap:
  assumes "cart_items_reference_carts db"
    and "case u_email NEW of None \<Rightarrow> True | Some e \<Rightarrow> printable_ascii e"
    and "run_statement (insert_auth_user NEW cart_id now) db = (res, db')"
  shows "(res = None \<longrightarrow>
            (\<exists>email. u_email NEW = Some email
               \<and> filter (\<lambda>p. p_id p = u_id NEW) (profiles db')
                   = [\<lparr>p_id = u_id NEW, p_email = email,
                       p_username = lower (takeWhile (\<lambda>c. c \<noteq> CHR ''@'') email),
                       p_role = Some user, p_setup_completed = Some False,
                       p_setup_completed_at = None\<rparr>])
          \<and> filter (\<lambda>c. c_user_id c = u_id NEW) (shopping_carts db')
              = [\<lparr>c_id = cart_id, c_user_id = u_id NEW, c_expires_at = Some (now + interval_30_days)\<rparr>]
          \<and> filter (\<lambda>i. ci_cart_id i = cart_id) (cart_items db') = []
          \<and> filter (\<lambda>s. us_user_id s = u_id NEW) (user_stats_summary db')
              = [\<lparr>us_user_id = u_id NEW, us_total_sales = 0, us_total_purchases = 0,
                  us_total_spent = 0, us_total_earned = 0, us_average_rating = None,
                  us_total_ratings = 0, us_follower_count = 0, us_following_count = 0\<rparr>])
       \<and> (res \<noteq> None \<longrightarrow> db' = db)"
proof (intro conjI impI)
  assume "res \<noteq> None"
  with assms(3) show "db' = db"
    by (auto simp: run_statement_def split: sum.splits)
next
  assume ok: "res = None"
  let ?db0 = "db\<lparr>auth_users := auth_users db @ [NEW]\<rparr>"
  from ok assms(3) have "insert_auth_user NEW cart_id now db = Inr db'"
    by (auto simp: run_statement_def split: sum.splits)
  then have h: "handle_new_user NEW cart_id now ?db0 = Inr db'"
    by (simp add: insert_auth_user_def split: if_splits)
  from handle_new_user_Inr [OF h assms(2)] obtain email where e: "u_email NEW = Some email"
    and p: "profiles db' = profiles db @ [\<lparr>p_id = u_id NEW, p_email = email,
            p_username = lower (split_part email (CHR ''@'') 1),
            p_role = Some user, p_setup_completed = Some False, p_setup_completed_at = None\<rparr>]"
    and pn: "\<not> list_ex (\<lambda>p. p_id p = u_id NEW) (profiles db)"
    and c: "shopping_carts db' = shopping_carts db @ [new_shopping_cart cart_id (u_id NEW) now]"
    and cn: "\<not> list_ex (\<lambda>c. c_id c = cart_id) (shopping_carts db)"
    and cu: "\<not> list_ex (\<lambda>c. c_user_id c = u_id NEW) (shopping_carts db)"
    and s: "user_stats_summary db' = user_stats_summary db @ [new_user_stats (u_id NEW)]"
    and sn: "\<not> list_ex (\<lambda>s. us_user_id s = u_id NEW) (user_stats_summary db)"
    and i: "cart_items db' = cart_items db"
    by auto
  have "filter (\<lambda>p. p_id p = u_id NEW) (profiles db')
        = [\<lparr>p_id = u_id NEW, p_email = email,
            p_username = lower (takeWhile (\<lambda>c. c \<noteq> CHR ''@'') email),
            p_role = Some user, p_setup_completed = Some False, p_setup_completed_at = None\<rparr>]"
    unfolding p split_part_first by (simp add: filter_none [OF pn])
  with e show "\<exists>email. u_email NEW = Some email
               \<and> filter (\<lambda>p. p_id p = u_id NEW) (profiles db')
                   = [\<lparr>p_id = u_id NEW, p_email = email,
                       p_username = lower (takeWhile (\<lambda>c. c \<noteq> CHR ''@'') email),
                       p_role = Some user, p_setup_completed = Some False,
                       p_setup_completed_at = None\<rparr>]"
    by blast
  show "filter (\<lambda>c. c_user_id c = u_id NEW) (shopping_carts db')
          = [\<lparr>c_id = cart_id, c_user_id = u_id NEW, c_expires_at = Some (now + interval_30_days)\<rparr>]"
    unfolding c by (simp add: filter_none [OF cu] new_shopping_cart_def)
  show "filter (\<lambda>i. ci_cart_id i = cart_id) (cart_items db') = []"
    unfolding i using assms(1) cn by (rule no_items_of_new_cart)
  show "filter (\<lambda>s. us_user_id s = u_id NEW) (user_stats_summary db')
          = [\<lparr>us_user_id = u_id NEW, us_total_sales = 0, us_total_purchases = 0,
              us_total_spent = 0, us_total_earned = 0, us_average_rating = None,
              us_total_ratings = 0, us_follower_count = 0, us_following_count = 0\<rparr>]"
    unfolding s by (simp add: filter_none [OF sn] new_user_stats_def)
qed

theorem new_principal_bootstrap_witness:
  "cart_items_reference_carts
     \<lparr>auth_users = [], profiles = [], profile_setup_progress = [], shopping_carts = [],
      cart_items = [], orders = [], user_follows = [], user_stats_summary = []\<rparr>
   \<and> printable_ascii ''Jane.Doe@Example.com'' \<and> printable_ascii ''bob@other.org''
   \<and> run_statement (insert_auth_user \<lparr>u_id = 1, u_email = Some ''Jane.Doe@Example.com''\<rparr> 7 1000)
       \<lparr>auth_users = [], profiles = [], profile_setup_progress = [], shopping_carts = [],
        cart_items = [], orders = [], user_follows = [], user_stats_summary = []\<rparr>
     = (None,
        \<lparr>auth_users = [\<lparr>u_id = 1, u_email = Some ''Jane.Doe@Example.com''\<rparr>],
         profiles = [\<lparr>p_id = 1, p_email = ''Jane.Doe@Example.com'', p_username = ''jane.doe'',
             p_role = Some user, p_setup_completed = Some False, p_setup_completed_at = None\<rparr>],
         profile_setup_progress = [],
         shopping_carts = [\<lparr>c_id = 7, c_user_id = 1, c_expires_at = Some 2593000\<rparr>],
         cart_items = [], orders = [], user_follows = [],
         user_stats_summary = [\<lparr>us_user_id = 1, us_total_sales = 0, us_total_purchases = 0,
             us_total_spent = 0, us_total_earned = 0, us_average_rating = None,
             us_total_ratings = 0, us_follower_count = 0, us_following_count = 0\<rparr>]\<rparr>)
   \<and> run_statement (insert_auth_user \<lparr>u_id = 2, u_email = Some ''bob@other.org''\<rparr> 7 2000)
       \<lparr>auth_users = [\<lparr>u_id = 1, u_email = Some ''Jane.Doe@Example.com''\<rparr>],
        profiles = [\<lparr>p_id = 1, p_email = ''Jane.Doe@Example.com'', p_username = ''jane.doe'',
            p_role = Some user, p_setup_completed = Some False, p_setup_completed_at = None\<rparr>],
        profile_setup_progress = [],
        shopping_carts = [\<lparr>c_id = 7, c_user_id = 1, c_expires_at = Some 2593000\<rparr>],
        cart_items = [], orders = [], user_follows = [],
        user_stats_summary = [\<lparr>us_user_id = 1, us_total_sales = 0, us_total_purchases = 0,
            us_total_spent = 0, us_total_earned = 0, us_average_rating = None,
            us_total_ratings = 0, us_follower_count = 0, us_following_count = 0\<rparr>]\<rparr>
     = (Some unique_violation,
        \<lparr>auth_users = [\<lparr>u_id = 1, u_email = Some ''Jane.Doe@Example.com''\<rparr>],
         profiles = [\<lparr>p_id = 1, p_email = ''Jane.Doe@Example.com'', p_username = ''jane.doe'',
             p_role = Some user, p_setup_completed = Some False, p_setup_completed_at = None\<rparr>],
         profile_setup_progress = [],
         shopping_carts = [\<lparr>c_id = 7, c_user_id = 1, c_expires_at = Some 2593000\<rparr>],
         cart_items = [], orders = [], user_follows = [],
         user_stats_summary = [\<lparr>us_user_id = 1, us_total_sales = 0, us_total_purchases = 0,
             us_total_spent = 0, us_total_earned = 0, us_average_rating = None,
             us_total_ratings = 0, us_follower_count = 0, us_following_count = 0\<rparr>]\<rparr>)
   \<and> filter (\<lambda>p. p_id p = 2) (profiles
        \<lparr>auth_users = [\<lparr>u_id = 1, u_email = Some ''Jane.Doe@Example.com''\<rparr>],
         profiles = [\<lparr>p_id = 1, p_email = ''Jane.Doe@Example.com'', p_username = ''jane.doe'',
             p_role = Some user, p_setup_completed = Some False, p_setup_completed_at = None\<rparr>],
         profile_setup_progress = [],
         shopping_carts = [\<lparr>c_id = 7, c_user_id = 1, c_expires_at = Some 2593000\<rparr>],
         cart_items = [], orders = [], user_follows = [],
         user_stats_summary = [\<lparr>us_user_id = 1, us_total_sales = 0, us_total_purchases = 0,
             us_total_spent = 0, us_total_earned = 0, us_average_rating = None,
             us_total_ratings = 0, us_follower_count = 0, us_following_count = 0\<rparr>]\<rparr>) = []"
proof -
  let ?db0 = "\<lparr>auth_users = [], profiles = [], profile_setup_progress = [], shopping_carts = [],
      cart_items = [], orders = [], user_follows = [], user_stats_summary = []\<rparr>"
  let ?jane = "\<lparr>u_id = 1, u_email = Some ''Jane.Doe@Example.com''\<rparr>"
  let ?bob = "\<lparr>u_id = 2, u_email = Some ''bob@other.org''\<rparr>"
  let ?db1 = "\<lparr>auth_users = [?jane],
         profiles = [\<lparr>p_id = 1, p_email = ''Jane.Doe@Example.com'', p_username = ''jane.doe'',
             p_role = Some user, p_setup_completed = Some False, p_setup_completed_at = None\<rparr>],
         profile_setup_progress = [],
         shopping_carts = [\<lparr>c_id = 7, c_user_id = 1, c_expires_at = Some 2593000\<rparr>],
         cart_items = [], orders = [], user_follows = [],
         user_stats_summary = [\<lparr>us_user_id = 1, us_total_sales = 0, us_total_purchases = 0,
             us_total_spent = 0, us_total_earned = 0, us_average_rating = None,
             us_total_ratings = 0, us_follower_count = 0, us_following_count = 0\<rparr>]\<rparr>"
  have fk0: "cart_items_reference_carts ?db0" by (simp add: cart_items_reference_carts_def)
  have fk1: "cart_items_reference_carts ?db1" by (simp add: cart_items_reference_carts_def)
  have run1: "run_statement (insert_auth_user ?jane 7 1000) ?db0 = (None, ?db1)" by code_simp
  have run2: "run_statement (insert_auth_user ?bob 7 2000) ?db1 = (Some unique_violation, ?db1)"
    by code_simp
  have pj: "printable_ascii ''Jane.Doe@Example.com''" and pb: "printable_ascii ''bob@other.org''"
    by code_simp+
  have hj: "case u_email ?jane of None \<Rightarrow> True | Some e \<Rightarrow> printable_ascii e" using pj by simp
  have hb: "case u_email ?bob of None \<Rightarrow> True | Some e \<Rightarrow> printable_ascii e" using pb by simp
  from new_principal_bootstrap [OF fk0 hj run1]
  have one: "filter (\<lambda>c. c_user_id c = 1) (shopping_carts ?db1)
      = [\<lparr>c_id = 7, c_user_id = 1, c_expires_at = Some 2593000\<rparr>]" by simp
  from new_principal_bootstrap [OF fk1 hb run2]
  have same: "filter (\<lambda>p. p_id p = 2) (profiles ?db1) = []" by simp
  from fk0 pj pb run1 run2 same show ?thesis by (intro conjI)
qed

subsection \<open>Setup completion\<close>

lemma find_map_same_id:
  assumes "\<And>p. p_id (g p) = p_id p"
  shows "find (\<lambda>p. p_id p = u) (map g ps) = map_option g (find (\<lambda>p. p_id p = u) ps)"
  using assms by (induction ps) simp_all

lemma update_setup_completion_progress:
  "profile_setup_progress (update_setup_completion NEW now db) = profile_setup_progress db"
  by (simp add: update_setup_completion_def)

lemma step_completed_after_trigger:
  "step_completed (update_setup_completion NEW now db) u s = step_completed db u s"
  by (simp add: step_completed_def update_setup_completion_progress)

lemma profile_of_after_trigger:
  "profile_of (update_setup_completion NEW now db) u =
     (if sp_step_name NEW \<in> {''avatar_selected'', ''profile_info_completed'', ''account_type_selected''}
         \<and> step_completed db (sp_user_id NEW) ''avatar_selected''
         \<and> step_completed db (sp_user_id NEW) ''profile_info_completed''
         \<and> u = sp_user_id NEW
      then map_option (\<lambda>p. p\<lparr>p_setup_completed := Some True, p_setup_completed_at := Some now\<rparr>)
             (profile_of db u)
      else profile_of db u)"
proof -
  let ?stamp = "\<lambda>p. p\<lparr>p_setup_completed := Some True, p_setup_completed_at := Some now\<rparr>"
  let ?g = "\<lambda>p. if p_id p = sp_user_id NEW then ?stamp p else p"
  let ?fire = "sp_step_name NEW \<in> {''avatar_selected'', ''profile_info_completed'', ''account_type_selected''}
         \<and> step_completed db (sp_user_id NEW) ''avatar_selected''
         \<and> step_completed db (sp_user_id NEW) ''profile_info_completed''"
  have g: "find (\<lambda>p. p_id p = u) (map ?g (profiles db))
      = map_option ?g (find (\<lambda>p. p_id p = u) (profiles db))"
    by (rule find_map_same_id) simp
  have id: "p_id p = u" if "find (\<lambda>p. p_id p = u) (profiles db) = Some p" for p
    using that by (auto simp: find_Some_iff)
  have pick: "map_option ?g (find (\<lambda>p. p_id p = u) (profiles db))
      = (if u = sp_user_id NEW then map_option ?stamp (find (\<lambda>p. p_id p = u) (profiles db))
         else find (\<lambda>p. p_id p = u) (profiles db))"
  proof (cases "find (\<lambda>p. p_id p = u) (profiles db)")
    case None
    then show ?thesis by auto
  next
    case (Some p)
    with id [OF Some] show ?thesis by auto
  qed
  show ?thesis
  proof (cases ?fire)
    case True
    then have "update_setup_completion NEW now db = db\<lparr>profiles := map ?g (profiles db)\<rparr>"
      by (simp only: update_setup_completion_def if_True simp_thms)
    then have "profile_of (update_setup_completion NEW now db) u
        = find (\<lambda>p. p_id p = u) (map ?g (profiles db))"
      by (simp add: profile_of_def)
    with True show ?thesis unfolding g pick by (simp add: profile_of_def)
  next
    case False
    then have "update_setup_completion NEW now db = db"
      by (auto simp: update_setup_completion_def)
    with False show ?thesis by auto
  qed
qed

lemma profile_of_after_triggers:
  assumes "list_all (\<lambda>n. sp_user_id n = uid \<and> sp_step_name n = step) ns"
  shows "profile_of (fold (\<lambda>NEW d. update_setup_completion NEW now d) ns db) u =
     (if ns \<noteq> [] \<and> step \<in> {''avatar_selected'', ''profile_info_completed'', ''account_type_selected''}
         \<and> step_completed db uid ''avatar_selected''
         \<and> step_completed db uid ''profile_info_completed''
         \<and> u = uid
      then map_option (\<lambda>p. p\<lparr>p_setup_completed := Some True, p_setup_completed_at := Some now\<rparr>)
             (profile_of db u)
      else profile_of db u)"
    and "profile_setup_progress (fold (\<lambda>NEW d. update_setup_completion NEW now d) ns db)
      = profile_setup_progress db"
  using assms
proof (induction ns arbitrary: db)
  case Nil
  {
    case 1 show ?case by simp
  next
    case 2 show ?case by simp
  }
next
  case (Cons n ns)
  {
    case 1
    then have n: "sp_user_id n = uid" "sp_step_name n = step"
      and ns: "list_all (\<lambda>n. sp_user_id n = uid \<and> sp_step_name n = step) ns" by simp_all
    show ?case
      using Cons.IH(1) [OF ns, of "update_setup_completion n now db"] n
      by (cases "profile_of db u")
        (auto simp: profile_of_after_trigger step_completed_after_trigger)
  next
    case 2
    then have ns: "list_all (\<lambda>n. sp_user_id n = uid \<and> sp_step_name n = step) ns" by simp
    show ?case
      using Cons.IH(2) [OF ns, of "update_setup_completion n now db"]
      by (simp add: update_setup_completion_progress)
  }
qed

lemma step_completed_after_marking:
  assumes "step_completed db uid s"
  shows "step_completed
     (db\<lparr>profile_setup_progress :=
          map (\<lambda>r. if sp_user_id r = uid' \<and> sp_step_name r = step then r\<lparr>sp_completed := Some True\<rparr> else r)
            (profile_setup_progress db)\<rparr>) uid s"
proof -
  from assms obtain r where r: "r \<in> set (profile_setup_progress db)"
    "sp_user_id r = uid" "sp_step_name r = s" "sp_completed r = Some True"
    by (auto simp: step_completed_def list_ex_iff)
  let ?m = "\<lambda>r. if sp_user_id r = uid' \<and> sp_step_name r = step then r\<lparr>sp_completed := Some True\<rparr> else r"
  from r have "?m r \<in> set (map ?m (profile_setup_progress db))"
    "sp_user_id (?m r) = uid" "sp_step_name (?m r) = s" "sp_completed (?m r) = Some True"
    by auto
  then have "\<exists>x \<in> set (map ?m (profile_setup_progress db)).
      sp_user_id x = uid \<and> sp_step_name x = s \<and> sp_completed x = Some True"
    by blast
  then show ?thesis by (simp add: step_completed_def list_ex_iff)
qed

lemma update_setup_progress_keeps_true:
  assumes "profile_of db w = Some t" and "p_setup_completed t = Some True"
  shows "\<exists>t'. profile_of (update_setup_progress uid step v now db) w = Some t'
           \<and> p_setup_completed t' = Some True"
proof -
  let ?hit = "\<lambda>r. sp_user_id r = uid \<and> sp_step_name r = step"
  let ?rows = "map (\<lambda>r. if ?hit r then r\<lparr>sp_completed := v\<rparr> else r) (profile_setup_progress db)"
  let ?db = "db\<lparr>profile_setup_progress := ?rows\<rparr>"
  have unf: "update_setup_progress uid step v now db
      = fold (\<lambda>NEW d. update_setup_completion NEW now d) (filter ?hit ?rows) ?db"
    by (simp add: update_setup_progress_def Let_def)
  have all: "list_all (\<lambda>n. sp_user_id n = uid \<and> sp_step_name n = step) (filter ?hit ?rows)"
    by (simp add: list_all_iff)
  have t: "profile_of ?db w = Some t" using assms(1) by (simp add: profile_of_def)
  show ?thesis
    unfolding unf profile_of_after_triggers(1) [OF all] t using assms(2) by simp
qed

lemma insert_setup_progress_keeps_true:
  assumes "insert_setup_progress NEW now db = Inr db'"
    and "profile_of db w = Some t" and "p_setup_completed t = Some True"
  shows "\<exists>t'. profile_of db' w = Some t' \<and> p_setup_completed t' = Some True"
proof -
  let ?db = "db\<lparr>profile_setup_progress := profile_setup_progress db @ [NEW]\<rparr>"
  from assms(1) have db': "db' = update_setup_completion NEW now ?db"
    by (simp add: insert_setup_progress_def split: if_splits)
  have t: "profile_of ?db w = Some t" using assms(2) by (simp add: profile_of_def)
  show ?thesis
    unfolding db' profile_of_after_trigger t using assms(3) by simp
qed

text \<open>
  C4 (as amended). One run of the trigger never takes \<^verbatim>\<open>setup_completed\<close> away from
  \<^verbatim>\<open>true\<close>, and it turns it to \<^verbatim>\<open>true\<close> only for the profile of the row written and only when
  \<^verbatim>\<open>avatar_selected\<close> and \<^verbatim>\<open>profile_info_completed\<close> are both recorded as completed for it.
  Writing a required step as completed again, while both are completed, leaves
  \<^verbatim>\<open>setup_completed\<close> at \<^verbatim>\<open>true\<close>. No \<^verbatim>\<open>UPDATE\<close> or \<^verbatim>\<open>INSERT\<close> of a setup step, whatever
  it writes, takes \<^verbatim>\<open>setup_completed\<close> away from \<^verbatim>\<open>true\<close>: under these writes the flag goes
  from \<^verbatim>\<open>false\<close> to \<^verbatim>\<open>true\<close> at most once.
\<close>

theorem setup_completed_kept_once_true:
  "(profile_of db u = Some p \<longrightarrow>
      (\<exists>p'. profile_of (update_setup_completion NEW now db) u = Some p'
         \<and> (p_setup_completed p = Some True \<longrightarrow> p_setup_completed p' = Some True)
         \<and> (p_setup_completed p \<noteq> Some True \<and> p_setup_completed p' = Some True \<longrightarrow>
               u = sp_user_id NEW
               \<and> step_completed db u ''avatar_selected''
               \<and> step_completed db u ''profile_info_completed'')))
   \<and> (profile_of db uid = Some q
       \<and> step \<in> {''avatar_selected'', ''profile_info_completed'', ''account_type_selected''}
       \<and> list_ex (\<lambda>r. sp_user_id r = uid \<and> sp_step_name r = step) (profile_setup_progress db)
       \<and> step_completed db uid ''avatar_selected''
       \<and> step_completed db uid ''profile_info_completed''
      \<longrightarrow> (\<exists>q'. profile_of (update_setup_progress uid step (Some True) now' db) uid = Some q'
             \<and> p_setup_completed q' = Some True))
   \<and> (profile_of db w = Some t \<and> p_setup_completed t = Some True
      \<longrightarrow> (\<exists>t'. profile_of (update_setup_progress uid2 step2 v2 now2 db) w = Some t'
             \<and> p_setup_completed t' = Some True))
   \<and> (profile_of db w = Some t \<and> p_setup_completed t = Some True
       \<and> insert_setup_progress NEW3 now3 db = Inr db3
      \<longrightarrow> (\<exists>t'. profile_of db3 w = Some t' \<and> p_setup_completed t' = Some True))"
proof (intro conjI impI)
  assume "profile_of db w = Some t \<and> p_setup_completed t = Some True"
  then show "\<exists>t'. profile_of (update_setup_progress uid2 step2 v2 now2 db) w = Some t'
             \<and> p_setup_completed t' = Some True"
    using update_setup_progress_keeps_true by blast
next
  assume "profile_of db w = Some t \<and> p_setup_completed t = Some True
       \<and> insert_setup_progress NEW3 now3 db = Inr db3"
  then show "\<exists>t'. profile_of db3 w = Some t' \<and> p_setup_completed t' = Some True"
    using insert_setup_progress_keeps_true by blast
next
  assume p: "profile_of db u = Some p"
  show "\<exists>p'. profile_of (update_setup_completion NEW now db) u = Some p'
         \<and> (p_setup_completed p = Some True \<longrightarrow> p_setup_completed p' = Some True)
         \<and> (p_setup_completed p \<noteq> Some True \<and> p_setup_completed p' = Some True \<longrightarrow>
               u = sp_user_id NEW
               \<and> step_completed db u ''avatar_selected''
               \<and> step_completed db u ''profile_info_completed'')"
    unfolding profile_of_after_trigger p by auto
next
  assume a: "profile_of db uid = Some q
       \<and> step \<in> {''avatar_selected'', ''profile_info_completed'', ''account_type_selected''}
       \<and> list_ex (\<lambda>r. sp_user_id r = uid \<and> sp_step_name r = step) (profile_setup_progress db)
       \<and> step_completed db uid ''avatar_selected''
       \<and> step_completed db uid ''profile_info_completed''"
  let ?hit = "\<lambda>r. sp_user_id r = uid \<and> sp_step_name r = step"
  let ?rows = "map (\<lambda>r. if ?hit r then r\<lparr>sp_completed := Some True\<rparr> else r) (profile_setup_progress db)"
  let ?db = "db\<lparr>profile_setup_progress := ?rows\<rparr>"
  have unf: "update_setup_progress uid step (Some True) now' db
      = fold (\<lambda>NEW d. update_setup_completion NEW now' d) (filter ?hit ?rows) ?db"
    by (simp add: update_setup_progress_def Let_def)
  have all: "list_all (\<lambda>n. sp_user_id n = uid \<and> sp_step_name n = step) (filter ?hit ?rows)"
    by (simp add: list_all_iff)
  from a obtain r where r: "r \<in> set (profile_setup_progress db)" "?hit r"
    by (auto simp: list_ex_iff)
  then have "r\<lparr>sp_completed := Some True\<rparr> \<in> set (filter ?hit ?rows)" by force
  then have "0 < length (filter ?hit ?rows)" by (rule length_pos_if_in_set)
  then have ne: "filter ?hit ?rows \<noteq> []" by (simp only: length_greater_0_conv simp_thms)
  have av: "step_completed ?db uid ''avatar_selected''"
    and pi: "step_completed ?db uid ''profile_info_completed''"
    using a by (simp_all add: step_completed_after_marking)
  have q: "profile_of ?db uid = Some q" using a by (simp add: profile_of_def)
  have "profile_of (update_setup_progress uid step (Some True) now' db) uid
            = Some (q\<lparr>p_setup_completed := Some True, p_setup_completed_at := Some now'\<rparr>)"
    unfolding unf profile_of_after_triggers(1) [OF all] using ne av pi q a by simp
  then show "\<exists>q'. profile_of (update_setup_progress uid step (Some True) now' db) uid = Some q'
             \<and> p_setup_completed q' = Some True"
    by simp
qed

theorem setup_completed_kept_once_true_witness:
  "profile_of
     \<lparr>auth_users = [\<lparr>u_id = 1, u_email = Some ''a@driplo.test''\<rparr>],
      profiles = [\<lparr>p_id = 1, p_email = ''a@driplo.test'', p_username = ''a'',
          p_role = Some user, p_setup_completed = Some True, p_setup_completed_at = Some 100\<rparr>],
      profile_setup_progress =
        [\<lparr>sp_user_id = 1, sp_step_name = ''avatar_selected'', sp_completed = Some True\<rparr>,
         \<lparr>sp_user_id = 1, sp_step_name = ''profile_info_completed'', sp_completed = Some True\<rparr>],
      shopping_carts = [], cart_items = [], orders = [], user_follows = [], user_stats_summary = []\<rparr> 1
     = Some \<lparr>p_id = 1, p_email = ''a@driplo.test'', p_username = ''a'',
          p_role = Some user, p_setup_completed = Some True, p_setup_completed_at = Some 100\<rparr>
   \<and> (\<exists>p'. profile_of (update_setup_completion \<lparr>sp_user_id = 1, sp_step_name = ''avatar_selected'', sp_completed = Some True\<rparr> 200
     \<lparr>auth_users = [\<lparr>u_id = 1, u_email = Some ''a@driplo.test''\<rparr>],
      profiles = [\<lparr>p_id = 1, p_email = ''a@driplo.test'', p_username = ''a'',
          p_role = Some user, p_setup_completed = Some True, p_setup_completed_at = Some 100\<rparr>],
      profile_setup_progress =
        [\<lparr>sp_user_id = 1, sp_step_name = ''avatar_selected'', sp_completed = Some True\<rparr>,
         \<lparr>sp_user_id = 1, sp_step_name = ''profile_info_completed'', sp_completed = Some True\<rparr>],
      shopping_carts = [], cart_items = [], orders = [], user_follows = [], user_stats_summary = []\<rparr>) 1 = Some p'
        \<and> p_setup_completed p' = Some True)
   \<and> ''avatar_selected'' \<in> {''avatar_selected'', ''profile_info_completed'', ''account_type_selected''}
   \<and> list_ex (\<lambda>r. sp_user_id r = 1 \<and> sp_step_name r = ''avatar_selected'') (profile_setup_progress
     \<lparr>auth_users = [\<lparr>u_id = 1, u_email = Some ''a@driplo.test''\<rparr>],
      profiles = [\<lparr>p_id = 1, p_email = ''a@driplo.test'', p_username = ''a'',
          p_role = Some user, p_setup_completed = Some True, p_setup_completed_at = Some 100\<rparr>],
      profile_setup_progress =
        [\<lparr>sp_user_id = 1, sp_step_name = ''avatar_selected'', sp_completed = Some True\<rparr>,
         \<lparr>sp_user_id = 1, sp_step_name = ''profile_info_completed'', sp_completed = Some True\<rparr>],
      shopping_carts = [], cart_items = [], orders = [], user_follows = [], user_stats_summary = []\<rparr>)
   \<and> step_completed
     \<lparr>auth_users = [\<lparr>u_id = 1, u_email = Some ''a@driplo.test''\<rparr>],
      profiles = [\<lparr>p_id = 1, p_email = ''a@driplo.test'', p_username = ''a'',
          p_role = Some user, p_setup_completed = Some True, p_setup_completed_at = Some 100\<rparr>],
      profile_setup_progress =
        [\<lparr>sp_user_id = 1, sp_step_name = ''avatar_selected'', sp_completed = Some True\<rparr>,
         \<lparr>sp_user_id = 1, sp_step_name = ''profile_info_completed'', sp_completed = Some True\<rparr>],
      shopping_carts = [], cart_items = [], orders = [], user_follows = [], user_stats_summary = []\<rparr> 1 ''avatar_selected''
   \<and> step_completed
     \<lparr>auth_users = [\<lparr>u_id = 1, u_email = Some ''a@driplo.test''\<rparr>],
      profiles = [\<lparr>p_id = 1, p_email = ''a@driplo.test'', p_username = ''a'',
          p_role = Some user, p_setup_completed = Some True, p_setup_completed_at = Some 100\<rparr>],
      profile_setup_progress =
        [\<lparr>sp_user_id = 1, sp_step_name = ''avatar_selected'', sp_completed = Some True\<rparr>,
         \<lparr>sp_user_id = 1, sp_step_name = ''profile_info_completed'', sp_completed = Some True\<rparr>],
      shopping_carts = [], cart_items = [], orders = [], user_follows = [], user_stats_summary = []\<rparr> 1 ''profile_info_completed''
   \<and> (\<exists>q'. profile_of (update_setup_progress 1 ''avatar_selected'' (Some True) 200
     \<lparr>auth_users = [\<lparr>u_id = 1, u_email = Some ''a@driplo.test''\<rparr>],
      profiles = [\<lparr>p_id = 1, p_email = ''a@driplo.test'', p_username = ''a'',
          p_role = Some user, p_setup_completed = Some True, p_setup_completed_at = Some 100\<rparr>],
      profile_setup_progress =
        [\<lparr>sp_user_id = 1, sp_step_name = ''avatar_selected'', sp_completed = Some True\<rparr>,
         \<lparr>sp_user_id = 1, sp_step_name = ''profile_info_completed'', sp_completed = Some True\<rparr>],
      shopping_carts = [], cart_items = [], orders = [], user_follows = [], user_stats_summary = []\<rparr>) 1 = Some q'
        \<and> p_setup_completed q' = Some True)
   \<and> (\<exists>t'. profile_of (update_setup_progress 1 ''avatar_selected'' (Some False) 300
     \<lparr>auth_users = [\<lparr>u_id = 1, u_email = Some ''a@driplo.test''\<rparr>],
      profiles = [\<lparr>p_id = 1, p_email = ''a@driplo.test'', p_username = ''a'',
          p_role = Some user, p_setup_completed = Some True, p_setup_completed_at = Some 100\<rparr>],
      profile_setup_progress =
        [\<lparr>sp_user_id = 1, sp_step_name = ''avatar_selected'', sp_completed = Some True\<rparr>,
         \<lparr>sp_user_id = 1, sp_step_name = ''profile_info_completed'', sp_completed = Some True\<rparr>],
      shopping_carts = [], cart_items = [], orders = [], user_follows = [], user_stats_summary = []\<rparr>) 1 = Some t'
        \<and> p_setup_completed t' = Some True)"
proof -
  let ?db = "\<lparr>auth_users = [\<lparr>u_id = 1, u_email = Some ''a@driplo.test''\<rparr>],
      profiles = [\<lparr>p_id = 1, p_email = ''a@driplo.test'', p_username = ''a'',
          p_role = Some user, p_setup_completed = Some True, p_setup_completed_at = Some 100\<rparr>],
      profile_setup_progress =
        [\<lparr>sp_user_id = 1, sp_step_name = ''avatar_selected'', sp_completed = Some True\<rparr>,
         \<lparr>sp_user_id = 1, sp_step_name = ''profile_info_completed'', sp_completed = Some True\<rparr>],
      shopping_carts = [], cart_items = [], orders = [], user_follows = [], user_stats_summary = []\<rparr>"
  let ?p = "\<lparr>p_id = 1, p_email = ''a@driplo.test'', p_username = ''a'',
          p_role = Some user, p_setup_completed = Some True, p_setup_completed_at = Some 100\<rparr>"
  let ?new = "\<lparr>sp_user_id = 1, sp_step_name = ''avatar_selected'', sp_completed = Some True\<rparr>"
  have p: "profile_of ?db 1 = Some ?p" by (simp add: profile_of_def)
  have st: "''avatar_selected'' \<in> {''avatar_selected'', ''profile_info_completed'', ''account_type_selected''}"
    by simp
  have row: "list_ex (\<lambda>r. sp_user_id r = 1 \<and> sp_step_name r = ''avatar_selected'')
      (profile_setup_progress ?db)" by simp
  have av: "step_completed ?db 1 ''avatar_selected''"
    and pi: "step_completed ?db 1 ''profile_info_completed''"
    by (simp_all add: step_completed_def)
  from setup_completed_kept_once_true
    [of ?db 1 ?p ?new 200, THEN conjunct1, THEN mp, OF p]
  have a: "\<exists>p'. profile_of (update_setup_completion ?new 200 ?db) 1 = Some p'
        \<and> p_setup_completed p' = Some True"
    by auto
  have hyp: "profile_of ?db 1 = Some ?p
       \<and> ''avatar_selected'' \<in> {''avatar_selected'', ''profile_info_completed'', ''account_type_selected''}
       \<and> list_ex (\<lambda>r. sp_user_id r = 1 \<and> sp_step_name r = ''avatar_selected'') (profile_setup_progress ?db)
       \<and> step_completed ?db 1 ''avatar_selected''
       \<and> step_completed ?db 1 ''profile_info_completed''"
    using p st row av pi by (intro conjI)
  have b: "\<exists>q'. profile_of (update_setup_progress 1 ''avatar_selected'' (Some True) 200 ?db) 1 = Some q'
        \<and> p_setup_completed q' = Some True"
    by (rule setup_completed_kept_once_true [THEN conjunct2, THEN conjunct1, THEN mp, OF hyp])
  have tr: "profile_of ?db 1 = Some ?p \<and> p_setup_completed ?p = Some True" using p by simp
  have c: "\<exists>t'. profile_of (update_setup_progress 1 ''avatar_selected'' (Some False) 300 ?db) 1 = Some t'
        \<and> p_setup_completed t' = Some True"
    by (rule setup_completed_kept_once_true
        [THEN conjunct2, THEN conjunct2, THEN conjunct1, THEN mp, OF tr])
  from p a st row av pi b c show ?thesis by (intro conjI)
qed

text \<open>
  C4 as stated fails: profile 1 completed its setup at time 100; writing \<^verbatim>\<open>avatar_selected\<close>
  as completed again at time 200 runs the \<^verbatim>\<open>UPDATE\<close> of the trigger again, and
  \<^verbatim>\<open>setup_completed_at\<close> becomes 200.
\<close>

theorem setup_completed_at_restamped_counterexample:
  "map_option p_setup_completed_at (profile_of
     \<lparr>auth_users = [\<lparr>u_id = 1, u_email = Some ''a@driplo.test''\<rparr>],
      profiles = [\<lparr>p_id = 1, p_email = ''a@driplo.test'', p_username = ''a'',
          p_role = Some user, p_setup_completed = Some True, p_setup_completed_at = Some 100\<rparr>],
      profile_setup_progress =
        [\<lparr>sp_user_id = 1, sp_step_name = ''avatar_selected'', sp_completed = Some True\<rparr>,
         \<lparr>sp_user_id = 1, sp_step_name = ''profile_info_completed'', sp_completed = Some True\<rparr>],
      shopping_carts = [], cart_items = [], orders = [], user_follows = [], user_stats_summary = []\<rparr> 1) = Some (Some 100)
   \<and> map_option p_setup_completed_at
       (profile_of (update_setup_progress 1 ''avatar_selected'' (Some True) 200
     \<lparr>auth_users = [\<lparr>u_id = 1, u_email = Some ''a@driplo.test''\<rparr>],
      profiles = [\<lparr>p_id = 1, p_email = ''a@driplo.test'', p_username = ''a'',
          p_role = Some user, p_setup_completed = Some True, p_setup_completed_at = Some 100\<rparr>],
      profile_setup_progress =
        [\<lparr>sp_user_id = 1, sp_step_name = ''avatar_selected'', sp_completed = Some True\<rparr>,
         \<lparr>sp_user_id = 1, sp_step_name = ''profile_info_completed'', sp_completed = Some True\<rparr>],
      shopping_carts = [], cart_items = [], orders = [], user_follows = [], user_stats_summary = []\<rparr>) 1) = Some (Some 200)"
  by code_simp

end
